theory Spec2Isabelle
  imports Complex_Main "HOL-Library.Char_ord" "HOL-Library.List_Lexorder"
begin

section \<open>Cells, rows and errors\<close>

text \<open>
  The program works on pandas data frames. A frame is modelled as the list of its rows,
  in row order, with the default \<open>RangeIndex\<close> that \<open>read_excel\<close> and \<open>read_csv\<close> give it
  (the position of a row is its label).

  A price or quantity cell is missing (NaN), a number, or a text that Python's \<open>float\<close>
  rejects. Numbers are exact rationals: the rounding of binary floating point is not
  modelled. A product cell is missing or a text; a text is a list of characters, each
  standing for the Unicode code point of its number (the code points below 256).
\<close>

datatype cell = Null | Num rat | Text string

record cat_row =
  producto :: "string option"
  precio_compra :: cell
  precio_venta :: cell

datatype error =
    PolicyValueError string  \<comment> \<open>\<open>ValueError\<close>, unknown deduplication policy\<close>
  | FloatValueError string   \<comment> \<open>\<open>ValueError\<close>, \<open>astype(float)\<close> on a text\<close>
  | AllNAError               \<comment> \<open>\<open>idxmax\<close>/\<open>idxmin\<close> over a column with no number\<close>
  | IndexError               \<comment> \<open>\<open>iloc\<close> beyond the end of a frame\<close>
  | KeyError string          \<comment> \<open>a column name the frame does not have\<close>
  | TypeError                \<comment> \<open>arithmetic on a text cell\<close>
  | MergeError               \<comment> \<open>\<open>validate="m:1"\<close> with a repeated key on the right\<close>

section \<open>norm\_text\<close>

text \<open>
  Python's \<open>str.strip\<close> and the pattern \<open>\s\<close> agree on what a whitespace character is
  (\<open>str.isspace\<close>); below 256 these are the code points 9 to 13, 28 to 32, 133 and 160.

  \<open>str.upper\<close> maps \<open>a\<close>..\<open>z\<close> to \<open>A\<close>..\<open>Z\<close>, the accented small letters 224 to 254
  (but not the division sign 247) to the capital 32 places below, and the sharp s 223 to
  \<open>SS\<close>; it leaves the other code points below 256 alone, except 181 and 255, whose
  capitals lie above 255: texts with one of these two letters are outside the model.
\<close>

definition isspace :: "char \<Rightarrow> bool" where
  "isspace c =
     (let n = (of_char c :: nat)
      in (9 \<le> n \<and> n \<le> 13) \<or> (28 \<le> n \<and> n \<le> 32) \<or> n = 133 \<or> n = 160)"

definition upper_char :: "char \<Rightarrow> string" where
  "upper_char c =
     (let n = (of_char c :: nat)
      in if (97 \<le> n \<and> n \<le> 122) \<or> (224 \<le> n \<and> n \<le> 254 \<and> n \<noteq> 247)
         then [char_of (n - 32)]
         else if n = 223 then ''SS''
         else [c])"

definition strip :: "string \<Rightarrow> string" where
  "strip s = rev (dropWhile isspace (rev (dropWhile isspace s)))"

text \<open>\<open>re.sub(r"\s+", " ", s)\<close>: every maximal run of whitespace becomes one space.\<close>

function sub_spaces :: "string \<Rightarrow> string" where
  "sub_spaces [] = []"
| "sub_spaces (c # cs) =
     (if isspace c then CHR '' '' # sub_spaces (dropWhile isspace cs) else c # sub_spaces cs)"
  by pat_completeness auto
termination
  by (relation "measure length") (auto simp: length_dropWhile_le less_Suc_eq_le)

definition upper :: "string \<Rightarrow> string" where
  "upper s = concat (map upper_char s)"

text \<open>\<open>norm_text\<close> of \<open>src/calc_pedido.py\<close>.\<close>

definition norm_text :: "string option \<Rightarrow> string" where
  "norm_text s =
     (case s of
        None \<Rightarrow> []
      | Some t \<Rightarrow> (let s1 = strip t; s2 = sub_spaces s1 in upper s2))"

text \<open>\<open>norm_text\<close> of \<open>src/downloads/calc_pedido.py\<close>.\<close>

definition norm_text_dl :: "string option \<Rightarrow> string" where
  "norm_text_dl s =
     (case s of
        None \<Rightarrow> []
      | Some t \<Rightarrow> (let s0 = t; s1 = strip s0; s2 = sub_spaces s1 in upper s2))"

section \<open>deduplicate\_catalog\<close>

text \<open>\<open>base["_key"] = base["producto"].apply(norm_text)\<close>\<close>

definition key_of :: "cat_row \<Rightarrow> string" where
  "key_of r = norm_text (producto r)"

text \<open>\<open>base.duplicated("_key", keep=False)\<close>: the key occurs on more than one row.\<close>

definition duplicated :: "cat_row list \<Rightarrow> cat_row \<Rightarrow> bool" where
  "duplicated base r = (1 < length (filter (\<lambda>x. key_of x = key_of r) base))"

text \<open>\<open>nunique(dropna=False)\<close>: the number of different values, all NaN counting as one.\<close>

definition nunique :: "cell list \<Rightarrow> nat" where
  "nunique xs = length (remdups xs)"

text \<open>
  \<open>astype(float)\<close> keeps NaN and numbers and raises \<open>ValueError\<close> at the first text.
\<close>

fun to_float :: "cell \<Rightarrow> error + rat option" where
  "to_float Null = Inr None"
| "to_float (Num q) = Inr (Some q)"
| "to_float (Text s) = Inl (FloatValueError s)"

fun astype_float :: "cell list \<Rightarrow> error + rat option list" where
  "astype_float [] = Inr []"
| "astype_float (c # cs) =
     (case to_float c of
        Inl e \<Rightarrow> Inl e
      | Inr v \<Rightarrow> (case astype_float cs of Inl e \<Rightarrow> Inl e | Inr vs \<Rightarrow> Inr (v # vs)))"

text \<open>
  \<open>idxmax\<close> and \<open>idxmin\<close> skip NaN (\<open>skipna=True\<close> is the default) and return the label of
  the first row that holds the extreme value. Over a column with no number they give no
  usable label, and the program stops with an exception (at \<open>idxmax\<close> itself or at the
  \<open>loc\<close> that follows, depending on the pandas version).
\<close>

fun argmax :: "rat option list \<Rightarrow> (nat \<times> rat) option" where
  "argmax [] = None"
| "argmax (None # xs) = map_option (\<lambda>(j, w). (Suc j, w)) (argmax xs)"
| "argmax (Some v # xs) =
     (case argmax xs of
        None \<Rightarrow> Some (0, v)
      | Some (j, w) \<Rightarrow> if v < w then Some (Suc j, w) else Some (0, v))"

fun argmin :: "rat option list \<Rightarrow> (nat \<times> rat) option" where
  "argmin [] = None"
| "argmin (None # xs) = map_option (\<lambda>(j, w). (Suc j, w)) (argmin xs)"
| "argmin (Some v # xs) =
     (case argmin xs of
        None \<Rightarrow> Some (0, v)
      | Some (j, w) \<Rightarrow> if w < v then Some (Suc j, w) else Some (0, v))"

definition idxmax :: "rat option list \<Rightarrow> error + nat" where
  "idxmax xs = (case argmax xs of None \<Rightarrow> Inl AllNAError | Some (i, v) \<Rightarrow> Inr i)"

definition idxmin :: "rat option list \<Rightarrow> error + nat" where
  "idxmin xs = (case argmin xs of None \<Rightarrow> Inl AllNAError | Some (i, v) \<Rightarrow> Inr i)"

text \<open>\<open>mean\<close> skips NaN as well; the mean of no number is NaN.\<close>

fun dropna :: "'a option list \<Rightarrow> 'a list" where
  "dropna [] = []"
| "dropna (None # xs) = dropna xs"
| "dropna (Some v # xs) = v # dropna xs"

definition mean :: "rat option list \<Rightarrow> cell" where
  "mean xs =
     (let vs = dropna xs
      in if vs = [] then Null else Num (sum_list vs / of_nat (length vs)))"

text \<open>\<open>g.iloc[[0]]\<close>\<close>

definition iloc0 :: "cat_row list \<Rightarrow> error + cat_row list" where
  "iloc0 g = (case g of [] \<Rightarrow> Inl IndexError | r # _ \<Rightarrow> Inr [r])"

text \<open>
  The body of the loop over the groups (\<open>src/calc_pedido.py\<close>, lines 37 to 56): the rows
  it appends to \<open>agg_rows\<close>, or the exception it raises.
\<close>

definition resolve_group :: "string \<Rightarrow> cat_row list \<Rightarrow> error + cat_row list" where
  "resolve_group policy g =
     (if nunique (map precio_compra g) = 1 \<and> nunique (map precio_venta g) = 1 then iloc0 g
      else if policy = ''first'' then iloc0 g
      else if policy = ''max_venta'' then
        (case astype_float (map precio_venta g) of
           Inl e \<Rightarrow> Inl e
         | Inr vs \<Rightarrow> (case idxmax vs of Inl e \<Rightarrow> Inl e | Inr idx \<Rightarrow> Inr [g ! idx]))
      else if policy = ''min_costo'' then
        (case astype_float (map precio_compra g) of
           Inl e \<Rightarrow> Inl e
         | Inr cs \<Rightarrow> (case idxmin cs of Inl e \<Rightarrow> Inl e | Inr idx \<Rightarrow> Inr [g ! idx]))
      else if policy = ''avg'' then
        (case g of
           [] \<Rightarrow> Inl IndexError
         | row # _ \<Rightarrow>
             (case astype_float (map precio_compra g) of
                Inl e \<Rightarrow> Inl e
              | Inr cs \<Rightarrow>
                  (case astype_float (map precio_venta g) of
                     Inl e \<Rightarrow> Inl e
                   | Inr vs \<Rightarrow>
                       Inr [row\<lparr>precio_compra := mean cs, precio_venta := mean vs\<rparr>])))
      else Inl (PolicyValueError policy))"

text \<open>The loop: it stops at the first exception.\<close>

fun agg_loop :: "string \<Rightarrow> cat_row list \<Rightarrow> cat_row list list \<Rightarrow> error + cat_row list" where
  "agg_loop policy agg_rows [] = Inr agg_rows"
| "agg_loop policy agg_rows (g # gs) =
     (case resolve_group policy g of
        Inl e \<Rightarrow> Inl e
      | Inr rows \<Rightarrow> agg_loop policy (agg_rows @ rows) gs)"

text \<open>\<open>dups.groupby("_key")\<close>: one group per key, the keys in ascending order.\<close>

definition groupby_key :: "cat_row list \<Rightarrow> cat_row list list" where
  "groupby_key dups =
     map (\<lambda>k. filter (\<lambda>r. key_of r = k) dups) (sort (remdups (map key_of dups)))"

definition deduplicate_catalog :: "cat_row list \<Rightarrow> string \<Rightarrow> error + cat_row list" where
  "deduplicate_catalog df_cat policy =
     (let base = df_cat;
          dups = filter (duplicated base) base;
          uniques = filter (\<lambda>r. \<not> duplicated base r) base
      in if dups = [] then Inr uniques
         else (case agg_loop policy [] (groupby_key dups) of
                 Inl e \<Rightarrow> Inl e
               | Inr agg \<Rightarrow> Inr (uniques @ agg)))"

subsection \<open>The copy in src/downloads/calc\_pedido.py\<close>

definition key_of_dl :: "cat_row \<Rightarrow> string" where
  "key_of_dl r = norm_text_dl (producto r)"

definition duplicated_dl :: "cat_row list \<Rightarrow> cat_row \<Rightarrow> bool" where
  "duplicated_dl base r = (1 < length (filter (\<lambda>x. key_of_dl x = key_of_dl r) base))"

text \<open>The body of the loop (\<open>src/downloads/calc_pedido.py\<close>, lines 45 to 70).\<close>

definition resolve_group_dl :: "string \<Rightarrow> cat_row list \<Rightarrow> error + cat_row list" where
  "resolve_group_dl policy g =
     (if nunique (map precio_compra g) = 1 \<and> nunique (map precio_venta g) = 1 then iloc0 g
      else if policy = ''first'' then iloc0 g
      else if policy = ''max_venta'' then
        (case astype_float (map precio_venta g) of
           Inl e \<Rightarrow> Inl e
         | Inr vs \<Rightarrow> (case idxmax vs of Inl e \<Rightarrow> Inl e | Inr idx \<Rightarrow> Inr [g ! idx]))
      else if policy = ''min_costo'' then
        (case astype_float (map precio_compra g) of
           Inl e \<Rightarrow> Inl e
         | Inr cs \<Rightarrow> (case idxmin cs of Inl e \<Rightarrow> Inl e | Inr idx \<Rightarrow> Inr [g ! idx]))
      else if policy = ''avg'' then
        (case g of
           [] \<Rightarrow> Inl IndexError
         | row # _ \<Rightarrow>
             (case astype_float (map precio_compra g) of
                Inl e \<Rightarrow> Inl e
              | Inr cs \<Rightarrow>
                  (case astype_float (map precio_venta g) of
                     Inl e \<Rightarrow> Inl e
                   | Inr vs \<Rightarrow>
                       Inr [row\<lparr>precio_compra := mean cs, precio_venta := mean vs\<rparr>])))
      else Inl (PolicyValueError policy))"

fun agg_loop_dl :: "string \<Rightarrow> cat_row list \<Rightarrow> cat_row list list \<Rightarrow> error + cat_row list" where
  "agg_loop_dl policy agg_rows [] = Inr agg_rows"
| "agg_loop_dl policy agg_rows (g # gs) =
     (case resolve_group_dl policy g of
        Inl e \<Rightarrow> Inl e
      | Inr rows \<Rightarrow> agg_loop_dl policy (agg_rows @ rows) gs)"

definition groupby_key_dl :: "cat_row list \<Rightarrow> cat_row list list" where
  "groupby_key_dl dups =
     map (\<lambda>k. filter (\<lambda>r. key_of_dl r = k) dups) (sort (remdups (map key_of_dl dups)))"

definition deduplicate_catalog_dl :: "cat_row list \<Rightarrow> string \<Rightarrow> error + cat_row list" where
  "deduplicate_catalog_dl df_cat policy =
     (let base = df_cat;
          dups = filter (duplicated_dl base) base;
          uniques = filter (\<lambda>r. \<not> duplicated_dl base r) base
      in if dups = [] then (let res = uniques in Inr res)
         else (case agg_loop_dl policy [] (groupby_key_dl dups) of
                 Inl e \<Rightarrow> Inl e
               | Inr agg \<Rightarrow> (let result = uniques @ agg in Inr result)))"

section \<open>The order: merge and line metrics\<close>

text \<open>
  An order row has the three required columns \<open>producto\<close>, \<open>cantidad\<close> and
  \<open>descuento_%\<close>. The checks for a missing column (lines 66 to 68 and 73 to 75 of
  \<open>src/calc_pedido.py\<close>) always pass on frames of these types.
\<close>

record ped_row =
  producto_ped :: "string option"
  cantidad :: cell
  descuento :: cell

text \<open>
  The merged frame: every order row, in order, with the catalog row of the same
  \<open>producto_norm\<close> when there is one (a left join). Both sides have a column \<open>producto\<close>
  that is not the join key, so pandas renames it on each side with that side's suffix;
  the frame remembers the suffixes it was built with.
\<close>

record merged =
  suffixes :: "string \<times> string"
  mrows :: "(ped_row \<times> cat_row option) list"

text \<open>\<open>drop_duplicates("producto_norm")\<close> keeps the first row of every key.\<close>

fun drop_duplicates_seen :: "string list \<Rightarrow> cat_row list \<Rightarrow> cat_row list" where
  "drop_duplicates_seen seen [] = []"
| "drop_duplicates_seen seen (r # rs) =
     (if key_of r \<in> set seen then drop_duplicates_seen seen rs
      else r # drop_duplicates_seen (key_of r # seen) rs)"

definition drop_duplicates :: "cat_row list \<Rightarrow> cat_row list" where
  "drop_duplicates rs = drop_duplicates_seen [] rs"

text \<open>
  \<open>df_ped.merge(right, on="producto_norm", how="left", validate="m:1", suffixes=...)\<close>
\<close>

definition merge :: "ped_row list \<Rightarrow> cat_row list \<Rightarrow> string \<times> string \<Rightarrow> error + merged" where
  "merge df_ped right sfx =
     (if \<not> distinct (map key_of right) then Inl MergeError
      else Inr \<lparr>suffixes = sfx,
                mrows = map (\<lambda>p. (p, find (\<lambda>c. key_of c = norm_text (producto_ped p)) right))
                          df_ped\<rparr>)"

text \<open>
  \<open>df["producto"]\<close> on a merged frame: the order's column when the left suffix is empty,
  the catalog's when the right one is, and no column at all otherwise.
\<close>

definition getitem_producto :: "merged \<Rightarrow> error + string option list" where
  "getitem_producto df =
     (if ''producto'' @ fst (suffixes df) = ''producto'' then
        Inr (map (\<lambda>m. producto_ped (fst m)) (mrows df))
      else if ''producto'' @ snd (suffixes df) = ''producto'' then
        Inr (map (\<lambda>m. case snd m of None \<Rightarrow> None | Some c \<Rightarrow> producto c) (mrows df))
      else Inl (KeyError ''producto''))"

definition col_precio_venta :: "ped_row \<times> cat_row option \<Rightarrow> cell" where
  "col_precio_venta m = (case snd m of None \<Rightarrow> Null | Some c \<Rightarrow> precio_venta c)"

definition col_precio_compra :: "ped_row \<times> cat_row option \<Rightarrow> cell" where
  "col_precio_compra m = (case snd m of None \<Rightarrow> Null | Some c \<Rightarrow> precio_compra c)"

text \<open>\<open>df[df["precio venta"].isna() | df["precio compra"].isna()]\<close>\<close>

definition isna :: "cell \<Rightarrow> bool" where
  "isna c = (c = Null)"

definition missing_rows :: "merged \<Rightarrow> merged" where
  "missing_rows df =
     df\<lparr>mrows := filter (\<lambda>m. isna (col_precio_venta m) \<or> isna (col_precio_compra m)) (mrows df)\<rparr>"

text \<open>\<open>unique()\<close> keeps the first occurrence of every value, in order.\<close>

definition unique :: "'a list \<Rightarrow> 'a list" where
  "unique xs = rev (remdups (rev xs))"

text \<open>\<open>fillna(d).astype(float)\<close>\<close>

fun fillna_float :: "rat \<Rightarrow> cell \<Rightarrow> error + rat" where
  "fillna_float d Null = Inr d"
| "fillna_float d (Num q) = Inr q"
| "fillna_float d (Text s) = Inl (FloatValueError s)"

fun fillna_astype_float :: "rat \<Rightarrow> cell list \<Rightarrow> error + rat list" where
  "fillna_astype_float d [] = Inr []"
| "fillna_astype_float d (c # cs) =
     (case fillna_float d c of
        Inl e \<Rightarrow> Inl e
      | Inr v \<Rightarrow> (case fillna_astype_float d cs of Inl e \<Rightarrow> Inl e | Inr vs \<Rightarrow> Inr (v # vs)))"

text \<open>A price column as an operand of arithmetic: a text makes the operation raise.\<close>

fun operand :: "cell \<Rightarrow> error + rat option" where
  "operand Null = Inr None"
| "operand (Num q) = Inr (Some q)"
| "operand (Text s) = Inl TypeError"

fun operands :: "cell list \<Rightarrow> error + rat option list" where
  "operands [] = Inr []"
| "operands (c # cs) =
     (case operand c of
        Inl e \<Rightarrow> Inl e
      | Inr v \<Rightarrow> (case operands cs of Inl e \<Rightarrow> Inl e | Inr vs \<Rightarrow> Inr (v # vs)))"

text \<open>Arithmetic on nullable numbers: NaN in, NaN out.\<close>

fun mul_na :: "rat option \<Rightarrow> rat option \<Rightarrow> rat option" where
  "mul_na (Some a) (Some b) = Some (a * b)"
| "mul_na _ _ = None"

fun sub_na :: "rat option \<Rightarrow> rat option \<Rightarrow> rat option" where
  "sub_na (Some a) (Some b) = Some (a - b)"
| "sub_na _ _ = None"

text \<open>\<open>x / y.replace({0: pd.NA})\<close>\<close>

fun replace_zero :: "rat option \<Rightarrow> rat option" where
  "replace_zero None = None"
| "replace_zero (Some a) = (if a = 0 then None else Some a)"

fun div_na :: "rat option \<Rightarrow> rat option \<Rightarrow> rat option" where
  "div_na (Some a) (Some b) = Some (a / b)"
| "div_na _ _ = None"

record detalle_row =
  producto_d :: "string option"
  cantidad_d :: rat
  descuento_d :: rat
  precio_venta_d :: "rat option"
  precio_venta_aplicado :: "rat option"
  precio_compra_d :: "rat option"
  ingreso_linea :: "rat option"
  costo_linea :: "rat option"
  utilidad_linea :: "rat option"
  margen_linea :: "rat option"

text \<open>
  The column assignments of lines 99 to 103, on one row: the vectorised operations work
  row by row.
\<close>

definition linea :: "string option \<Rightarrow> rat \<Rightarrow> rat \<Rightarrow> rat option \<Rightarrow> rat option \<Rightarrow> detalle_row" where
  "linea nombre cant desc pv pc =
     (let aplicado = mul_na pv (Some (1 - desc));
          ingreso = mul_na (Some cant) aplicado;
          costo = mul_na (Some cant) pc;
          utilidad = sub_na ingreso costo;
          margen = div_na utilidad (replace_zero ingreso)
      in \<lparr>producto_d = nombre, cantidad_d = cant, descuento_d = desc, precio_venta_d = pv,
          precio_venta_aplicado = aplicado, precio_compra_d = pc, ingreso_linea = ingreso,
          costo_linea = costo, utilidad_linea = utilidad, margen_linea = margen\<rparr>)"

fun lineas :: "string option list \<Rightarrow> rat list \<Rightarrow> rat list \<Rightarrow> rat option list \<Rightarrow> rat option list
    \<Rightarrow> detalle_row list" where
  "lineas (p # ps) (c # cs) (d # ds) (v # vs) (k # ks) = linea p c d v k # lineas ps cs ds vs ks"
| "lineas _ _ _ _ _ = []"

record resumen_row =
  ingreso_total :: rat
  costo_total :: rat
  utilidad_total_balance_neto :: rat
  margen_ponderado :: rat

text \<open>\<open>sum(skipna=True)\<close> and the weighted margin of lines 105 to 108.\<close>

definition sum_skipna :: "rat option list \<Rightarrow> rat" where
  "sum_skipna xs = sum_list (dropna xs)"

definition resumen_of :: "detalle_row list \<Rightarrow> resumen_row" where
  "resumen_of df =
     (let total_ingreso = sum_skipna (map ingreso_linea df);
          total_costo = sum_skipna (map costo_linea df);
          total_util = sum_skipna (map utilidad_linea df);
          margen_pond = (if total_ingreso \<noteq> 0 then total_util / total_ingreso else 0)
      in \<lparr>ingreso_total = total_ingreso, costo_total = total_costo,
          utilidad_total_balance_neto = total_util, margen_ponderado = margen_pond\<rparr>)"

text \<open>
  What a run gives its caller or prints: the products of the warning, the detail table
  and the summary.
\<close>

record salida =
  missing :: "string option list"
  detalle :: "detalle_row list"
  resumen :: resumen_row

text \<open>
  Lines 96 to 108 and the selection of the detail columns, shared by both files; the
  order of the conversions is the order in which they can raise. The detail table needs
  the column \<open>producto\<close> again.
\<close>

definition metricas :: "merged \<Rightarrow> error + detalle_row list" where
  "metricas df =
     (case fillna_astype_float 0 (map (\<lambda>m. descuento (fst m)) (mrows df)) of
        Inl e \<Rightarrow> Inl e
      | Inr descs \<Rightarrow>
     (case fillna_astype_float 0 (map (\<lambda>m. cantidad (fst m)) (mrows df)) of
        Inl e \<Rightarrow> Inl e
      | Inr cants \<Rightarrow>
     (case operands (map col_precio_venta (mrows df)) of
        Inl e \<Rightarrow> Inl e
      | Inr pvs \<Rightarrow>
     (case operands (map col_precio_compra (mrows df)) of
        Inl e \<Rightarrow> Inl e
      | Inr pcs \<Rightarrow>
     (case getitem_producto df of
        Inl e \<Rightarrow> Inl e
      | Inr prods \<Rightarrow> Inr (lineas prods cants descs pvs pcs))))))"

text \<open>\<open>calcular\<close> of \<open>src/calc_pedido.py\<close>: the merge keeps the default suffixes.\<close>

definition calcular :: "cat_row list \<Rightarrow> ped_row list \<Rightarrow> string \<Rightarrow> error + salida" where
  "calcular df_cat df_ped dedup_policy =
     (case deduplicate_catalog df_cat dedup_policy of
        Inl e \<Rightarrow> Inl e
      | Inr df_cat_clean \<Rightarrow>
     (let right_unique = drop_duplicates df_cat_clean
      in case merge df_ped right_unique (''_x'', ''_y'') of
        Inl e \<Rightarrow> Inl e
      | Inr df \<Rightarrow>
     (case getitem_producto (missing_rows df) of
        Inl e \<Rightarrow> Inl e
      | Inr prods \<Rightarrow>
     (let missing = unique (map Some (dropna prods))
      in case metricas df of
        Inl e \<Rightarrow> Inl e
      | Inr lines \<Rightarrow>
          Inr \<lparr>missing = missing, detalle = lines, resumen = resumen_of lines\<rparr>))))"

text \<open>
  \<open>main\<close> of \<open>src/downloads/calc_pedido.py\<close>: the merge has \<open>suffixes=("", "_cat")\<close>, and
  the warning keeps a missing product name.
\<close>

definition main :: "cat_row list \<Rightarrow> ped_row list \<Rightarrow> string \<Rightarrow> error + salida" where
  "main df_cat df_ped dedup_policy =
     (case deduplicate_catalog_dl df_cat dedup_policy of
        Inl e \<Rightarrow> Inl e
      | Inr df_cat_clean \<Rightarrow>
     (case merge df_ped (drop_duplicates df_cat_clean) ('''', ''_cat'') of
        Inl e \<Rightarrow> Inl e
      | Inr df \<Rightarrow>
     (case getitem_producto (missing_rows df) of
        Inl e \<Rightarrow> Inl e
      | Inr prods \<Rightarrow>
     (let missing = unique prods
      in case metricas df of
        Inl e \<Rightarrow> Inl e
      | Inr lines \<Rightarrow>
          Inr \<lparr>missing = missing, detalle = lines, resumen = resumen_of lines\<rparr>))))"

section \<open>The two files hold the same resolver\<close>

lemma norm_text_dl_eq: "norm_text_dl = norm_text"
  by (rule ext) (simp add: norm_text_dl_def norm_text_def Let_def split: option.splits)

lemma key_of_dl_eq: "key_of_dl = key_of"
  by (rule ext) (simp add: key_of_dl_def key_of_def norm_text_dl_eq)

lemma duplicated_dl_eq: "duplicated_dl = duplicated"
  by (intro ext) (simp add: duplicated_dl_def duplicated_def key_of_dl_eq)

lemma resolve_group_dl_eq: "resolve_group_dl = resolve_group"
  by (intro ext) (simp add: resolve_group_dl_def resolve_group_def)

lemma agg_loop_dl_eq: "agg_loop_dl policy acc gs = agg_loop policy acc gs"
  by (induction gs arbitrary: acc) (simp_all add: resolve_group_dl_eq split: sum.splits)

lemma groupby_key_dl_eq: "groupby_key_dl = groupby_key"
  by (rule ext) (simp add: groupby_key_dl_def groupby_key_def key_of_dl_eq)

lemma deduplicate_catalog_dl_eq: "deduplicate_catalog_dl = deduplicate_catalog"
  by (intro ext)
     (simp add: deduplicate_catalog_dl_def deduplicate_catalog_def duplicated_dl_eq
        groupby_key_dl_eq agg_loop_dl_eq Let_def split: sum.splits)

text \<open>
  Claim C9. \<open>norm_text\<close> of \<open>src/calc_pedido.py\<close> and \<open>norm_text\<close> of
  \<open>src/downloads/calc_pedido.py\<close> are the same function, and so are the two
  \<open>deduplicate_catalog\<close>: for every table and every policy they return the same rows or
  raise the same error.
\<close>

theorem both_files_same_resolver:
  "norm_text_dl = norm_text \<and> deduplicate_catalog_dl = deduplicate_catalog"
  using norm_text_dl_eq deduplicate_catalog_dl_eq by simp

section \<open>Library facts: argmax, argmin, nunique\<close>

lemma argmax_None: "argmax xs = None \<longleftrightarrow> (\<forall>x\<in>set xs. x = None)"
  by (induction xs rule: argmax.induct) (auto split: option.splits)

lemma argmax_upper:
  "argmax xs = Some (i, v) \<Longrightarrow> Some w \<in> set xs \<Longrightarrow> w \<le> v"
proof (induction xs arbitrary: i v rule: argmax.induct)
  case 1
  then show ?case by simp
next
  case (2 xs)
  then show ?case by auto
next
  case (3 u xs)
  show ?case
  proof (cases "argmax xs")
    case None
    with 3 show ?thesis by (auto simp: argmax_None)
  next
    case (Some p)
    obtain j b where p: "p = (j, b)" by (cases p)
    from 3 Some p show ?thesis
      by (fastforce split: if_splits)
  qed
qed

lemma argmax_first:
  "argmax xs = Some (i, v) \<Longrightarrow> j < i \<Longrightarrow> xs ! j = Some w \<Longrightarrow> w < v"
proof (induction xs arbitrary: i j v rule: argmax.induct)
  case 1
  then show ?case by simp
next
  case (2 xs)
  then show ?case by (cases j) auto
next
  case (3 u xs)
  show ?case
  proof (cases "argmax xs")
    case None
    with 3 show ?thesis by auto
  next
    case (Some p)
    obtain k b where p: "p = (k, b)" by (cases p)
    show ?thesis
    proof (cases "u < b")
      case True
      with 3 Some p show ?thesis
        by (cases j) (auto simp: less_Suc_eq_0_disj)
    next
      case False
      with 3 Some p show ?thesis by auto
    qed
  qed
qed

lemma argmin_None: "argmin xs = None \<longleftrightarrow> (\<forall>x\<in>set xs. x = None)"
  by (induction xs rule: argmin.induct) (auto split: option.splits)

lemma argmin_lower:
  "argmin xs = Some (i, v) \<Longrightarrow> Some w \<in> set xs \<Longrightarrow> v \<le> w"
proof (induction xs arbitrary: i v rule: argmin.induct)
  case 1
  then show ?case by simp
next
  case (2 xs)
  then show ?case by auto
next
  case (3 u xs)
  show ?case
  proof (cases "argmin xs")
    case None
    with 3 show ?thesis by (auto simp: argmin_None)
  next
    case (Some p)
    obtain j b where p: "p = (j, b)" by (cases p)
    from 3 Some p show ?thesis
      by (fastforce split: if_splits)
  qed
qed

lemma argmin_first:
  "argmin xs = Some (i, v) \<Longrightarrow> j < i \<Longrightarrow> xs ! j = Some w \<Longrightarrow> v < w"
proof (induction xs arbitrary: i j v rule: argmin.induct)
  case 1
  then show ?case by simp
next
  case (2 xs)
  then show ?case by (cases j) auto
next
  case (3 u xs)
  show ?case
  proof (cases "argmin xs")
    case None
    with 3 show ?thesis by auto
  next
    case (Some p)
    obtain k b where p: "p = (k, b)" by (cases p)
    show ?thesis
    proof (cases "b < u")
      case True
      with 3 Some p show ?thesis
        by (cases j) (auto simp: less_Suc_eq_0_disj)
    next
      case False
      with 3 Some p show ?thesis by auto
    qed
  qed
qed

lemma nunique_one:
  "xs \<noteq> [] \<Longrightarrow> (nunique xs = 1) = (\<forall>x\<in>set xs. \<forall>y\<in>set xs. x = y)"
proof -
  assume ne: "xs \<noteq> []"
  have "nunique xs = card (set xs)"
    by (simp add: nunique_def length_remdups_card_conv)
  moreover have "(card (set xs) = 1) = (\<forall>x\<in>set xs. \<forall>y\<in>set xs. x = y)"
  proof
    assume "card (set xs) = 1"
    then obtain a where "set xs = {a}" by (auto simp: card_1_singleton_iff)
    then show "\<forall>x\<in>set xs. \<forall>y\<in>set xs. x = y" by simp
  next
    assume all: "\<forall>x\<in>set xs. \<forall>y\<in>set xs. x = y"
    from ne obtain a where a: "a \<in> set xs" by (cases xs) auto
    with all have "set xs = {a}" by auto
    then show "card (set xs) = 1" by simp
  qed
  ultimately show ?thesis by simp
qed

lemma astype_float_all2:
  "astype_float cs = Inr vs \<Longrightarrow> list_all2 (\<lambda>c v. to_float c = Inr v) cs vs"
  by (induction cs arbitrary: vs) (auto split: sum.splits)

lemma astype_float_length: "astype_float cs = Inr vs \<Longrightarrow> length vs = length cs"
  by (drule astype_float_all2) (simp add: list_all2_lengthD)

lemma agg_loop_Inr:
  "agg_loop policy acc gs = Inr out \<Longrightarrow>
     \<exists>rs. list_all2 (\<lambda>g r. resolve_group policy g = Inr r) gs rs \<and> out = acc @ concat rs"
proof (induction gs arbitrary: acc)
  case Nil
  then show ?case by simp
next
  case (Cons g gs)
  from Cons.prems obtain r where r: "resolve_group policy g = Inr r"
    and rest: "agg_loop policy (acc @ r) gs = Inr out"
    by (auto split: sum.splits)
  from Cons.IH [OF rest] obtain rs
    where "list_all2 (\<lambda>g r. resolve_group policy g = Inr r) gs rs" "out = (acc @ r) @ concat rs"
    by blast
  with r have "list_all2 (\<lambda>g r. resolve_group policy g = Inr r) (g # gs) (r # rs)
      \<and> out = acc @ concat (r # rs)"
    by simp
  then show ?case by blast
qed

lemma agg_loop_Inl:
  "agg_loop policy acc gs = Inl e \<Longrightarrow> \<exists>g\<in>set gs. resolve_group policy g = Inl e"
  by (induction gs arbitrary: acc) (auto split: sum.splits)

lemma agg_loop_total:
  "\<forall>g\<in>set gs. \<exists>r. resolve_group policy g = Inr r \<Longrightarrow> \<exists>out. agg_loop policy acc gs = Inr out"
  by (induction gs arbitrary: acc) (auto split: sum.splits)

lemma agg_loop_cong:
  "\<forall>g\<in>set gs. resolve_group p g = resolve_group q g \<Longrightarrow> agg_loop p acc gs = agg_loop q acc gs"
  by (induction gs arbitrary: acc) (auto split: sum.splits)

lemma argmax_index:
  "argmax xs = Some (i, v) \<Longrightarrow> i < length xs \<and> xs ! i = Some v"
  by (induction xs arbitrary: i v rule: argmax.induct)
     (auto split: option.splits if_splits)

lemma argmin_index:
  "argmin xs = Some (i, v) \<Longrightarrow> i < length xs \<and> xs ! i = Some v"
  by (induction xs arbitrary: i v rule: argmin.induct)
     (auto split: option.splits if_splits)

lemma idxmax_less: "idxmax xs = Inr i \<Longrightarrow> i < length xs"
  by (auto simp: idxmax_def split: option.splits dest: argmax_index)

lemma idxmin_less: "idxmin xs = Inr i \<Longrightarrow> i < length xs"
  by (auto simp: idxmin_def split: option.splits dest: argmin_index)

lemma resolve_group_single:
  assumes "resolve_group policy g = Inr rows"
  shows "\<exists>x. rows = [x] \<and> producto x \<in> producto ` set g"
proof -
  have iloc: "iloc0 g = Inr rows \<Longrightarrow> ?thesis"
    by (auto simp: iloc0_def split: list.splits)
  have pick: "i < length g \<Longrightarrow> rows = [g ! i] \<Longrightarrow> ?thesis" for i
    by auto
  from assms show ?thesis
    unfolding resolve_group_def
    by (auto split: if_splits sum.splits list.splits
        intro: iloc pick dest!: idxmax_less idxmin_less astype_float_length)
qed

section \<open>The shape of a resolved catalog\<close>

lemma duplicated_iff:
  "duplicated cat r \<longleftrightarrow> 1 < length (filter (\<lambda>x. key_of x = key_of r) cat)"
  by (simp add: duplicated_def)

lemma filter_key_dups:
  "filter (\<lambda>r. key_of r = k) (filter (duplicated cat) cat) =
     (if 1 < length (filter (\<lambda>r. key_of r = k) cat) then filter (\<lambda>r. key_of r = k) cat else [])"
proof -
  have "filter (\<lambda>r. key_of r = k) (filter (duplicated cat) cat) =
      filter (\<lambda>r. key_of r = k \<and> 1 < length (filter (\<lambda>r. key_of r = k) cat)) cat"
    unfolding filter_filter by (rule filter_cong) (auto simp: duplicated_def)
  then show ?thesis by simp
qed

lemma filter_key_uniques:
  "filter (\<lambda>r. key_of r = k) (filter (\<lambda>r. \<not> duplicated cat r) cat) =
     (if 1 < length (filter (\<lambda>r. key_of r = k) cat) then [] else filter (\<lambda>r. key_of r = k) cat)"
proof -
  have "filter (\<lambda>r. key_of r = k) (filter (\<lambda>r. \<not> duplicated cat r) cat) =
      filter (\<lambda>r. key_of r = k \<and> \<not> 1 < length (filter (\<lambda>r. key_of r = k) cat)) cat"
    unfolding filter_filter by (rule filter_cong) (auto simp: duplicated_def)
  then show ?thesis by simp
qed

lemma key_in_dups:
  "k \<in> key_of ` set (filter (duplicated cat) cat) \<longleftrightarrow> 1 < length (filter (\<lambda>r. key_of r = k) cat)"
proof
  assume "k \<in> key_of ` set (filter (duplicated cat) cat)"
  then show "1 < length (filter (\<lambda>r. key_of r = k) cat)"
    by (auto simp: duplicated_def)
next
  assume len: "1 < length (filter (\<lambda>r. key_of r = k) cat)"
  then have "filter (\<lambda>r. key_of r = k) cat \<noteq> []" by auto
  then obtain r where "r \<in> set cat" "key_of r = k"
    by (auto simp: filter_empty_conv)
  with len show "k \<in> key_of ` set (filter (duplicated cat) cat)"
    by (auto simp: duplicated_def image_iff)
qed

lemma filter_concat_keys:
  assumes "list_all2 (\<lambda>k r. P k r \<and> (\<forall>x\<in>set r. key_of x = k)) keys rs" "distinct keys"
  shows "(k \<in> set keys \<longrightarrow> P k (filter (\<lambda>x. key_of x = k) (concat rs))) \<and>
         (k \<notin> set keys \<longrightarrow> filter (\<lambda>x. key_of x = k) (concat rs) = [])"
  using assms
proof (induction rule: list_all2_induct)
  case Nil
  then show ?case by simp
next
  case (Cons k' ks r rs)
  then have ih: "(k \<in> set ks \<longrightarrow> P k (filter (\<lambda>x. key_of x = k) (concat rs))) \<and>
         (k \<notin> set ks \<longrightarrow> filter (\<lambda>x. key_of x = k) (concat rs) = [])"
    by simp
  show ?case
  proof (cases "k = k'")
    case True
    with Cons have "filter (\<lambda>x. key_of x = k) r = r" "k \<notin> set ks" "P k r"
      by (auto simp: filter_id_conv)
    with ih True show ?thesis by simp
  next
    case False
    with Cons have "filter (\<lambda>x. key_of x = k) r = []"
      by (auto simp: filter_empty_conv)
    with ih False show ?thesis by simp
  qed
qed

lemma dedup_Inr_shape:
  assumes "deduplicate_catalog cat policy = Inr rows"
  shows "\<exists>rs. rows = filter (\<lambda>r. \<not> duplicated cat r) cat @ concat rs \<and>
     list_all2 (\<lambda>g r. resolve_group policy g = Inr r) (groupby_key (filter (duplicated cat) cat)) rs"
proof (cases "filter (duplicated cat) cat = []")
  case True
  with assms have "rows = filter (\<lambda>r. \<not> duplicated cat r) cat @ concat []"
    by (simp add: deduplicate_catalog_def Let_def)
  moreover from True have "groupby_key (filter (duplicated cat) cat) = []"
    by (simp add: groupby_key_def)
  ultimately show ?thesis by (metis list_all2_Nil)
next
  case False
  with assms obtain agg where agg: "agg_loop policy [] (groupby_key (filter (duplicated cat) cat)) = Inr agg"
    and rows: "rows = filter (\<lambda>r. \<not> duplicated cat r) cat @ agg"
    by (auto simp: deduplicate_catalog_def Let_def split: sum.splits)
  from agg_loop_Inr [OF agg] rows show ?thesis by auto
qed

lemma dedup_rows_of_key:
  assumes ok: "deduplicate_catalog cat policy = Inr rows"
  shows "(length (filter (\<lambda>r. key_of r = k) cat) \<le> 1 \<longrightarrow>
            filter (\<lambda>r. key_of r = k) rows = filter (\<lambda>r. key_of r = k) cat) \<and>
         (1 < length (filter (\<lambda>r. key_of r = k) cat) \<longrightarrow>
            resolve_group policy (filter (\<lambda>r. key_of r = k) cat) = Inr (filter (\<lambda>r. key_of r = k) rows))"
proof -
  define dups where "dups = filter (duplicated cat) cat"
  define keys where "keys = sort (remdups (map key_of dups))"
  define G where "G k = filter (\<lambda>r. key_of r = k) cat" for k
  from dedup_Inr_shape [OF ok] obtain rs
    where rows: "rows = filter (\<lambda>r. \<not> duplicated cat r) cat @ concat rs"
      and all2: "list_all2 (\<lambda>g r. resolve_group policy g = Inr r) (groupby_key dups) rs"
    unfolding dups_def by blast
  have keys: "distinct keys" "set keys = {k. 1 < length (G k)}"
    using key_in_dups [of _ cat] by (auto simp: keys_def dups_def G_def)
  have grp: "filter (\<lambda>r. key_of r = k) dups = G k" if "k \<in> set keys" for k
    using that keys filter_key_dups [of k cat] by (simp add: dups_def G_def del: filter_filter)
  from all2 have "list_all2 (\<lambda>k r. resolve_group policy (filter (\<lambda>r. key_of r = k) dups) = Inr r) keys rs"
    by (simp add: groupby_key_def keys_def list_all2_map1)
  then have "list_all2 (\<lambda>k r. resolve_group policy (G k) = Inr r \<and> (\<forall>x\<in>set r. key_of x = k)) keys rs"
  proof (rule list.rel_mono_strong)
    fix k r
    assume k: "k \<in> set keys" and r: "resolve_group policy (filter (\<lambda>r. key_of r = k) dups) = Inr r"
    from r grp [OF k] have rg: "resolve_group policy (G k) = Inr r" by simp
    from resolve_group_single [OF rg] obtain x where "r = [x]" "producto x \<in> producto ` set (G k)"
      by blast
    then have "\<forall>x\<in>set r. key_of x = k"
      by (auto simp: G_def key_of_def)
    with rg show "resolve_group policy (G k) = Inr r \<and> (\<forall>x\<in>set r. key_of x = k)" by simp
  qed
  from filter_concat_keys [OF this keys(1), of k]
  have agg: "(1 < length (G k) \<longrightarrow> resolve_group policy (G k) = Inr (filter (\<lambda>x. key_of x = k) (concat rs)))
      \<and> (\<not> 1 < length (G k) \<longrightarrow> filter (\<lambda>x. key_of x = k) (concat rs) = [])"
    using keys(2) by simp
  have "filter (\<lambda>r. key_of r = k) rows =
      (if 1 < length (G k) then [] else G k) @ filter (\<lambda>x. key_of x = k) (concat rs)"
    using filter_key_uniques [of k cat] by (simp add: rows G_def del: filter_filter)
  with agg show ?thesis
    unfolding G_def by (auto simp: not_less)
qed

lemma image_filter_conv: "k \<in> f ` set xs \<longleftrightarrow> filter (\<lambda>x. f x = k) xs \<noteq> []"
  by (auto simp: filter_empty_conv)

lemma distinct_map_filter:
  "distinct (map f xs) \<longleftrightarrow> (\<forall>k. length (filter (\<lambda>x. f x = k) xs) \<le> 1)"
proof (induction xs)
  case Nil
  then show ?case by simp
next
  case (Cons x xs)
  show ?case
  proof
    assume d: "distinct (map f (x # xs))"
    then have "f x \<notin> f ` set xs" by simp
    then have nil: "filter (\<lambda>y. f y = f x) xs = []"
      by (simp only: image_filter_conv) simp
    from d Cons have le: "\<forall>k. length (filter (\<lambda>x. f x = k) xs) \<le> 1" by simp
    show "\<forall>k. length (filter (\<lambda>y. f y = k) (x # xs)) \<le> 1"
    proof
      fix k
      show "length (filter (\<lambda>y. f y = k) (x # xs)) \<le> 1"
        using nil le by (cases "f x = k") auto
    qed
  next
    assume a: "\<forall>k. length (filter (\<lambda>y. f y = k) (x # xs)) \<le> 1"
    from a [rule_format, of "f x"] have "filter (\<lambda>y. f y = f x) xs = []" by simp
    then have "f x \<notin> f ` set xs" by (simp only: image_filter_conv) simp
    moreover have "length (filter (\<lambda>y. f y = k) xs) \<le> 1" for k
      using a [rule_format, of k] by (cases "f x = k") auto
    with Cons have "distinct (map f xs)" by simp
    ultimately show "distinct (map f (x # xs))" by simp
  qed
qed

lemma dedup_Inl:
  assumes "deduplicate_catalog cat policy = Inl e"
  shows "\<exists>k. 1 < length (filter (\<lambda>r. key_of r = k) cat) \<and>
             resolve_group policy (filter (\<lambda>r. key_of r = k) cat) = Inl e"
proof -
  from assms have "agg_loop policy [] (groupby_key (filter (duplicated cat) cat)) = Inl e"
    by (auto simp: deduplicate_catalog_def Let_def split: if_splits sum.splits)
  from agg_loop_Inl [OF this] obtain k
    where k: "k \<in> key_of ` set (filter (duplicated cat) cat)"
      and e: "resolve_group policy (filter (\<lambda>r. key_of r = k) (filter (duplicated cat) cat)) = Inl e"
    by (auto simp: groupby_key_def)
  from k have "1 < length (filter (\<lambda>r. key_of r = k) cat)"
    by (simp only: key_in_dups)
  with e filter_key_dups [of k cat] show ?thesis
    by (auto simp del: filter_filter)
qed

lemma dedup_total:
  assumes "\<And>k. 1 < length (filter (\<lambda>r. key_of r = k) cat) \<Longrightarrow>
             \<exists>r. resolve_group policy (filter (\<lambda>r. key_of r = k) cat) = Inr r"
  shows "\<exists>rows. deduplicate_catalog cat policy = Inr rows"
proof (cases "deduplicate_catalog cat policy")
  case (Inl e)
  from dedup_Inl [OF this] assms show ?thesis by force
next
  case (Inr rows)
  then show ?thesis by blast
qed

lemma dedup_fails:
  assumes "1 < length (filter (\<lambda>r. key_of r = k) cat)"
    and "resolve_group policy (filter (\<lambda>r. key_of r = k) cat) = Inl e"
  shows "deduplicate_catalog cat policy \<noteq> Inr rows"
proof
  assume "deduplicate_catalog cat policy = Inr rows"
  from dedup_rows_of_key [OF this, of k] assms show False by simp
qed

lemma dedup_key_count:
  assumes "deduplicate_catalog cat policy = Inr rows"
  shows "length (filter (\<lambda>r. key_of r = k) rows) \<le> 1 \<and>
     (filter (\<lambda>r. key_of r = k) rows = [] \<longleftrightarrow> filter (\<lambda>r. key_of r = k) cat = [])"
proof (cases "1 < length (filter (\<lambda>r. key_of r = k) cat)")
  case True
  with dedup_rows_of_key [OF assms, of k]
  have "resolve_group policy (filter (\<lambda>r. key_of r = k) cat) = Inr (filter (\<lambda>r. key_of r = k) rows)"
    by simp
  from resolve_group_single [OF this] True show ?thesis by auto
next
  case False
  with dedup_rows_of_key [OF assms, of k] show ?thesis by simp
qed

lemma dedup_distinct_keys:
  "deduplicate_catalog cat policy = Inr rows \<Longrightarrow> distinct (map key_of rows)"
  using dedup_key_count [of cat policy rows] by (simp add: distinct_map_filter)

section \<open>Groups with equal prices, unknown policies\<close>

lemma same_prices_nunique:
  assumes "g \<noteq> []"
  shows "(nunique (map precio_compra g) = 1 \<and> nunique (map precio_venta g) = 1) =
     (\<forall>x\<in>set g. \<forall>y\<in>set g. precio_compra x = precio_compra y \<and> precio_venta x = precio_venta y)"
proof -
  have a: "(nunique (map precio_compra g) = 1) =
      (\<forall>x\<in>set g. \<forall>y\<in>set g. precio_compra x = precio_compra y)"
    using nunique_one [of "map precio_compra g"] assms by simp
  have b: "(nunique (map precio_venta g) = 1) =
      (\<forall>x\<in>set g. \<forall>y\<in>set g. precio_venta x = precio_venta y)"
    using nunique_one [of "map precio_venta g"] assms by simp
  show ?thesis unfolding a b by blast
qed

lemma iloc0_nonempty: "g \<noteq> [] \<Longrightarrow> iloc0 g = Inr [g ! 0]"
  by (cases g) (simp_all add: iloc0_def)

lemma resolve_group_equal:
  assumes "g \<noteq> []"
    and "\<forall>x\<in>set g. \<forall>y\<in>set g. precio_compra x = precio_compra y \<and> precio_venta x = precio_venta y"
  shows "resolve_group policy g = Inr [g ! 0]"
proof -
  from same_prices_nunique [OF assms(1)] assms(2)
  have eq: "nunique (map precio_compra g) = 1 \<and> nunique (map precio_venta g) = 1"
    by blast
  show ?thesis
    unfolding resolve_group_def using eq iloc0_nonempty [OF assms(1)] by simp
qed

lemma resolve_group_first: "g \<noteq> [] \<Longrightarrow> resolve_group ''first'' g = Inr [g ! 0]"
  by (simp add: resolve_group_def iloc0_nonempty)

lemma resolve_group_unknown:
  assumes "g \<noteq> []" "policy \<notin> {''first'', ''max_venta'', ''min_costo'', ''avg''}"
    and "\<not> (\<forall>x\<in>set g. \<forall>y\<in>set g. precio_compra x = precio_compra y \<and> precio_venta x = precio_venta y)"
  shows "resolve_group policy g = Inl (PolicyValueError policy)"
proof -
  from same_prices_nunique [OF assms(1)] assms(3)
  have ne: "\<not> (nunique (map precio_compra g) = 1 \<and> nunique (map precio_venta g) = 1)"
    by blast
  from assms(2) have p: "policy \<noteq> ''first''" "policy \<noteq> ''max_venta''"
    "policy \<noteq> ''min_costo''" "policy \<noteq> ''avg''"
    by simp_all
  show ?thesis
    unfolding resolve_group_def using ne p by auto
qed

lemma groupby_members:
  assumes "g \<in> set (groupby_key (filter (duplicated cat) cat))"
  shows "\<exists>k. g = filter (\<lambda>r. key_of r = k) cat \<and> 1 < length g"
proof -
  from assms obtain k where k: "k \<in> key_of ` set (filter (duplicated cat) cat)"
    and g: "g = filter (\<lambda>r. key_of r = k) (filter (duplicated cat) cat)"
    by (auto simp: groupby_key_def)
  from k have "1 < length (filter (\<lambda>r. key_of r = k) cat)"
    by (simp only: key_in_dups)
  with g filter_key_dups [of k cat] show ?thesis
    by (auto simp del: filter_filter)
qed

lemma dedup_cong:
  assumes "\<And>k. 1 < length (filter (\<lambda>r. key_of r = k) cat) \<Longrightarrow>
     resolve_group p (filter (\<lambda>r. key_of r = k) cat) = resolve_group q (filter (\<lambda>r. key_of r = k) cat)"
  shows "deduplicate_catalog cat p = deduplicate_catalog cat q"
proof -
  have "\<forall>g\<in>set (groupby_key (filter (duplicated cat) cat)). resolve_group p g = resolve_group q g"
    using assms groupby_members [of _ cat] by blast
  from agg_loop_cong [OF this] show ?thesis
    by (simp add: deduplicate_catalog_def Let_def)
qed

lemma equal_group_rows:
  assumes "deduplicate_catalog cat policy = Inr rows"
    and "1 < length (filter (\<lambda>r. key_of r = k) cat)"
    and "\<forall>x\<in>set (filter (\<lambda>r. key_of r = k) cat). \<forall>y\<in>set (filter (\<lambda>r. key_of r = k) cat).
           precio_compra x = precio_compra y \<and> precio_venta x = precio_venta y"
  shows "filter (\<lambda>r. key_of r = k) rows = [filter (\<lambda>r. key_of r = k) cat ! 0]"
proof -
  from assms(2) have ne: "filter (\<lambda>r. key_of r = k) cat \<noteq> []" by auto
  from dedup_rows_of_key [OF assms(1), of k] assms(2)
  have "resolve_group policy (filter (\<lambda>r. key_of r = k) cat) = Inr (filter (\<lambda>r. key_of r = k) rows)"
    by simp
  moreover from resolve_group_equal [OF ne assms(3)]
  have "resolve_group policy (filter (\<lambda>r. key_of r = k) cat) = Inr [filter (\<lambda>r. key_of r = k) cat ! 0]" .
  ultimately show ?thesis by simp
qed

lemma all_equal_total:
  assumes "\<And>k. 1 < length (filter (\<lambda>r. key_of r = k) cat) \<Longrightarrow>
        (\<forall>x\<in>set (filter (\<lambda>r. key_of r = k) cat). \<forall>y\<in>set (filter (\<lambda>r. key_of r = k) cat).
            precio_compra x = precio_compra y \<and> precio_venta x = precio_venta y)"
  shows "\<exists>rows. deduplicate_catalog cat policy = Inr rows"
proof (rule dedup_total)
  fix k
  assume len: "1 < length (filter (\<lambda>r. key_of r = k) cat)"
  then have ne: "filter (\<lambda>r. key_of r = k) cat \<noteq> []" by auto
  from resolve_group_equal [OF ne assms [OF len]]
  show "\<exists>r. resolve_group policy (filter (\<lambda>r. key_of r = k) cat) = Inr r" ..
qed

section \<open>Conversion to float, idxmax and idxmin\<close>

lemma to_float_Some: "(to_float c = Inr (Some w)) = (c = Num w)"
  by (cases c) auto

lemma to_float_None: "(to_float c = Inr None) = (c = Null)"
  by (cases c) auto

lemma to_float_Inl: "(\<exists>e. to_float c = Inl e) = (\<exists>s. c = Text s)"
  by (cases c) auto

lemma astype_float_Num: "astype_float (map Num vs) = Inr (map Some vs)"
  by (induction vs) simp_all

lemma astype_float_Text:
  "Text s \<in> set cs \<Longrightarrow> \<exists>s'. astype_float cs = Inl (FloatValueError s')"
proof (induction cs)
  case Nil
  then show ?case by simp
next
  case (Cons c cs)
  show ?case
  proof (cases c)
    case Null
    with Cons show ?thesis by (auto split: sum.splits)
  next
    case (Num q)
    with Cons show ?thesis by (auto split: sum.splits)
  next
    case (Text t)
    then show ?thesis by simp
  qed
qed

lemma astype_float_ok:
  "\<forall>s. Text s \<notin> set cs \<Longrightarrow> \<exists>vs. astype_float cs = Inr vs"
proof (induction cs)
  case Nil
  then show ?case by simp
next
  case (Cons c cs)
  then obtain vs where "astype_float cs = Inr vs" by auto
  with Cons.prems show ?case by (cases c) auto
qed

lemma astype_float_set:
  "astype_float cs = Inr vs \<Longrightarrow> (Some w \<in> set vs) = (Num w \<in> set cs)"
proof (induction cs arbitrary: vs)
  case Nil
  then show ?case by simp
next
  case (Cons c cs)
  then show ?case by (cases c) (auto split: sum.splits)
qed

lemma astype_float_nth:
  "astype_float cs = Inr vs \<Longrightarrow> i < length cs \<Longrightarrow> (vs ! i = Some w) = (cs ! i = Num w)"
proof -
  assume a: "astype_float cs = Inr vs" and i: "i < length cs"
  from astype_float_all2 [OF a] i have "to_float (cs ! i) = Inr (vs ! i)"
    by (rule list_all2_nthD)
  then show ?thesis by (cases "cs ! i") auto
qed

lemma astype_float_dropna:
  "astype_float cs = Inr vs \<Longrightarrow> map Num (dropna vs) = filter (\<lambda>c. c \<noteq> Null) cs"
proof (induction cs arbitrary: vs)
  case Nil
  then show ?case by simp
next
  case (Cons c cs)
  then show ?case by (cases c) (auto split: sum.splits)
qed

lemma idxmax_Inr:
  assumes "idxmax vs = Inr i"
  shows "\<exists>v. i < length vs \<and> vs ! i = Some v \<and> (\<forall>w. Some w \<in> set vs \<longrightarrow> w \<le> v) \<and>
             (\<forall>j<i. \<forall>w. vs ! j = Some w \<longrightarrow> w < v)"
proof -
  from assms obtain v where a: "argmax vs = Some (i, v)"
    by (auto simp: idxmax_def split: option.splits)
  from argmax_index [OF a] argmax_upper [OF a] argmax_first [OF a]
  have "i < length vs \<and> vs ! i = Some v \<and> (\<forall>w. Some w \<in> set vs \<longrightarrow> w \<le> v) \<and>
             (\<forall>j<i. \<forall>w. vs ! j = Some w \<longrightarrow> w < v)"
    by blast
  then show ?thesis ..
qed

lemma idxmax_total: "Some v \<in> set vs \<Longrightarrow> \<exists>i. idxmax vs = Inr i"
proof -
  assume "Some v \<in> set vs"
  then have "argmax vs \<noteq> None" by (auto simp: argmax_None)
  then show ?thesis by (auto simp: idxmax_def split: option.splits)
qed

lemma idxmax_all_null: "\<forall>v. Some v \<notin> set vs \<Longrightarrow> idxmax vs = Inl AllNAError"
proof -
  assume "\<forall>v. Some v \<notin> set vs"
  then have "\<forall>x\<in>set vs. x = None" by (metis not_Some_eq)
  then have "argmax vs = None" by (simp only: argmax_None)
  then show ?thesis by (simp add: idxmax_def)
qed

lemma idxmin_Inr:
  assumes "idxmin vs = Inr i"
  shows "\<exists>v. i < length vs \<and> vs ! i = Some v \<and> (\<forall>w. Some w \<in> set vs \<longrightarrow> v \<le> w) \<and>
             (\<forall>j<i. \<forall>w. vs ! j = Some w \<longrightarrow> v < w)"
proof -
  from assms obtain v where a: "argmin vs = Some (i, v)"
    by (auto simp: idxmin_def split: option.splits)
  from argmin_index [OF a] argmin_lower [OF a] argmin_first [OF a]
  have "i < length vs \<and> vs ! i = Some v \<and> (\<forall>w. Some w \<in> set vs \<longrightarrow> v \<le> w) \<and>
             (\<forall>j<i. \<forall>w. vs ! j = Some w \<longrightarrow> v < w)"
    by blast
  then show ?thesis ..
qed

lemma idxmin_total: "Some v \<in> set vs \<Longrightarrow> \<exists>i. idxmin vs = Inr i"
proof -
  assume "Some v \<in> set vs"
  then have "argmin vs \<noteq> None" by (auto simp: argmin_None)
  then show ?thesis by (auto simp: idxmin_def split: option.splits)
qed

lemma idxmin_all_null: "\<forall>v. Some v \<notin> set vs \<Longrightarrow> idxmin vs = Inl AllNAError"
proof -
  assume "\<forall>v. Some v \<notin> set vs"
  then have "\<forall>x\<in>set vs. x = None" by (metis not_Some_eq)
  then have "argmin vs = None" by (simp only: argmin_None)
  then show ?thesis by (simp add: idxmin_def)
qed

lemma resolve_group_disagree:
  assumes "g \<noteq> []"
    and "\<not> (\<forall>x\<in>set g. \<forall>y\<in>set g. precio_compra x = precio_compra y \<and> precio_venta x = precio_venta y)"
  shows "resolve_group ''max_venta'' g =
      (case astype_float (map precio_venta g) of
         Inl e \<Rightarrow> Inl e
       | Inr vs \<Rightarrow> (case idxmax vs of Inl e \<Rightarrow> Inl e | Inr idx \<Rightarrow> Inr [g ! idx]))"
    and "resolve_group ''min_costo'' g =
      (case astype_float (map precio_compra g) of
         Inl e \<Rightarrow> Inl e
       | Inr cs \<Rightarrow> (case idxmin cs of Inl e \<Rightarrow> Inl e | Inr idx \<Rightarrow> Inr [g ! idx]))"
    and "resolve_group ''avg'' g =
      (case astype_float (map precio_compra g) of
         Inl e \<Rightarrow> Inl e
       | Inr cs \<Rightarrow>
           (case astype_float (map precio_venta g) of
              Inl e \<Rightarrow> Inl e
            | Inr vs \<Rightarrow> Inr [(g ! 0)\<lparr>precio_compra := mean cs, precio_venta := mean vs\<rparr>]))"
proof -
  from same_prices_nunique [OF assms(1)] assms(2)
  have ne: "(nunique (map precio_compra g) = 1 \<and> nunique (map precio_venta g) = 1) = False"
    by blast
  obtain r rs where g: "g = r # rs" using assms(1) by (cases g) auto
  then have nth0: "g ! 0 = r" by simp
  show "resolve_group ''max_venta'' g =
      (case astype_float (map precio_venta g) of
         Inl e \<Rightarrow> Inl e
       | Inr vs \<Rightarrow> (case idxmax vs of Inl e \<Rightarrow> Inl e | Inr idx \<Rightarrow> Inr [g ! idx]))"
    unfolding resolve_group_def ne by simp
  show "resolve_group ''min_costo'' g =
      (case astype_float (map precio_compra g) of
         Inl e \<Rightarrow> Inl e
       | Inr cs \<Rightarrow> (case idxmin cs of Inl e \<Rightarrow> Inl e | Inr idx \<Rightarrow> Inr [g ! idx]))"
    unfolding resolve_group_def ne by simp
  have "resolve_group ''avg'' g =
      (case g of
           [] \<Rightarrow> Inl IndexError
         | row # _ \<Rightarrow>
             (case astype_float (map precio_compra g) of
                Inl e \<Rightarrow> Inl e
              | Inr cs \<Rightarrow>
                  (case astype_float (map precio_venta g) of
                     Inl e \<Rightarrow> Inl e
                   | Inr vs \<Rightarrow>
                       Inr [row\<lparr>precio_compra := mean cs, precio_venta := mean vs\<rparr>])))"
    unfolding resolve_group_def ne by simp
  then show "resolve_group ''avg'' g =
      (case astype_float (map precio_compra g) of
         Inl e \<Rightarrow> Inl e
       | Inr cs \<Rightarrow>
           (case astype_float (map precio_venta g) of
              Inl e \<Rightarrow> Inl e
            | Inr vs \<Rightarrow> Inr [(g ! 0)\<lparr>precio_compra := mean cs, precio_venta := mean vs\<rparr>]))"
    unfolding nth0 unfolding g list.case .
qed

section \<open>What each policy does to a group that disagrees\<close>

lemma max_venta_pick:
  assumes ne: "g \<noteq> []"
    and dis: "\<not> (\<forall>x\<in>set g. \<forall>y\<in>set g. precio_compra x = precio_compra y \<and> precio_venta x = precio_venta y)"
    and notext: "\<forall>s. Text s \<notin> precio_venta ` set g"
    and num: "Num v0 \<in> precio_venta ` set g"
  shows "\<exists>i v. i < length g \<and> resolve_group ''max_venta'' g = Inr [g ! i] \<and>
           precio_venta (g ! i) = Num v \<and>
           (\<forall>w. Num w \<in> precio_venta ` set g \<longrightarrow> w \<le> v) \<and>
           (\<forall>j<i. \<forall>w. precio_venta (g ! j) = Num w \<longrightarrow> w < v)"
proof -
  from notext have "\<forall>s. Text s \<notin> set (map precio_venta g)" by simp
  from astype_float_ok [OF this] obtain vs where vs: "astype_float (map precio_venta g) = Inr vs"
    by blast
  have len: "length vs = length g" using astype_float_length [OF vs] by simp
  have mem: "(Some w \<in> set vs) = (Num w \<in> precio_venta ` set g)" for w
    using astype_float_set [OF vs, of w] by simp
  have nth: "(vs ! j = Some w) = (precio_venta (g ! j) = Num w)" if "j < length g" for j w
    using astype_float_nth [OF vs, of j w] that by simp
  from num have "Some v0 \<in> set vs" by (simp only: mem)
  from idxmax_total [OF this] obtain i where i: "idxmax vs = Inr i" by blast
  from idxmax_Inr [OF i] obtain v where v: "i < length vs" "vs ! i = Some v"
    "\<forall>w. Some w \<in> set vs \<longrightarrow> w \<le> v" "\<forall>j<i. \<forall>w. vs ! j = Some w \<longrightarrow> w < v"
    by blast
  from v(1) len have ig: "i < length g" by simp
  have r: "resolve_group ''max_venta'' g = Inr [g ! i]"
    by (simp add: resolve_group_disagree(1) [OF ne dis] vs i)
  have p: "precio_venta (g ! i) = Num v" using v(2) nth [OF ig] by simp
  have u: "\<forall>w. Num w \<in> precio_venta ` set g \<longrightarrow> w \<le> v"
    using v(3) mem by simp
  have f: "\<forall>j<i. \<forall>w. precio_venta (g ! j) = Num w \<longrightarrow> w < v"
  proof (intro allI impI)
    fix j w
    assume j: "j < i" and w: "precio_venta (g ! j) = Num w"
    from j ig have "j < length g" by simp
    from nth [OF this] w have "vs ! j = Some w" by simp
    with v(4) j show "w < v" by blast
  qed
  from ig r p u f show ?thesis by blast
qed

lemma min_costo_pick:
  assumes ne: "g \<noteq> []"
    and dis: "\<not> (\<forall>x\<in>set g. \<forall>y\<in>set g. precio_compra x = precio_compra y \<and> precio_venta x = precio_venta y)"
    and notext: "\<forall>s. Text s \<notin> precio_compra ` set g"
    and num: "Num v0 \<in> precio_compra ` set g"
  shows "\<exists>i v. i < length g \<and> resolve_group ''min_costo'' g = Inr [g ! i] \<and>
           precio_compra (g ! i) = Num v \<and>
           (\<forall>w. Num w \<in> precio_compra ` set g \<longrightarrow> v \<le> w) \<and>
           (\<forall>j<i. \<forall>w. precio_compra (g ! j) = Num w \<longrightarrow> v < w)"
proof -
  from notext have "\<forall>s. Text s \<notin> set (map precio_compra g)" by simp
  from astype_float_ok [OF this] obtain vs where vs: "astype_float (map precio_compra g) = Inr vs"
    by blast
  have len: "length vs = length g" using astype_float_length [OF vs] by simp
  have mem: "(Some w \<in> set vs) = (Num w \<in> precio_compra ` set g)" for w
    using astype_float_set [OF vs, of w] by simp
  have nth: "(vs ! j = Some w) = (precio_compra (g ! j) = Num w)" if "j < length g" for j w
    using astype_float_nth [OF vs, of j w] that by simp
  from num have "Some v0 \<in> set vs" by (simp only: mem)
  from idxmin_total [OF this] obtain i where i: "idxmin vs = Inr i" by blast
  from idxmin_Inr [OF i] obtain v where v: "i < length vs" "vs ! i = Some v"
    "\<forall>w. Some w \<in> set vs \<longrightarrow> v \<le> w" "\<forall>j<i. \<forall>w. vs ! j = Some w \<longrightarrow> v < w"
    by blast
  from v(1) len have ig: "i < length g" by simp
  have r: "resolve_group ''min_costo'' g = Inr [g ! i]"
    by (simp add: resolve_group_disagree(2) [OF ne dis] vs i)
  have p: "precio_compra (g ! i) = Num v" using v(2) nth [OF ig] by simp
  have u: "\<forall>w. Num w \<in> precio_compra ` set g \<longrightarrow> v \<le> w"
    using v(3) mem by simp
  have f: "\<forall>j<i. \<forall>w. precio_compra (g ! j) = Num w \<longrightarrow> v < w"
  proof (intro allI impI)
    fix j w
    assume j: "j < i" and w: "precio_compra (g ! j) = Num w"
    from j ig have "j < length g" by simp
    from nth [OF this] w have "vs ! j = Some w" by simp
    with v(4) j show "v < w" by blast
  qed
  from ig r p u f show ?thesis by blast
qed

lemma avg_pick:
  assumes ne: "g \<noteq> []"
    and dis: "\<not> (\<forall>x\<in>set g. \<forall>y\<in>set g. precio_compra x = precio_compra y \<and> precio_venta x = precio_venta y)"
    and notext: "\<forall>s. Text s \<notin> precio_compra ` set g \<union> precio_venta ` set g"
  shows "\<exists>cs vs. map Num cs = filter (\<lambda>c. c \<noteq> Null) (map precio_compra g) \<and>
           map Num vs = filter (\<lambda>c. c \<noteq> Null) (map precio_venta g) \<and>
           resolve_group ''avg'' g =
             Inr [\<lparr>producto = producto (g ! 0),
                   precio_compra = (if cs = [] then Null else Num (sum_list cs / of_nat (length cs))),
                   precio_venta = (if vs = [] then Null else Num (sum_list vs / of_nat (length vs)))\<rparr>]"
proof -
  from notext have a: "\<forall>s. Text s \<notin> set (map precio_compra g)"
    and b: "\<forall>s. Text s \<notin> set (map precio_venta g)" by simp_all
  from astype_float_ok [OF a] obtain cs where cs: "astype_float (map precio_compra g) = Inr cs"
    by blast
  from astype_float_ok [OF b] obtain vs where vs: "astype_float (map precio_venta g) = Inr vs"
    by blast
  have r: "resolve_group ''avg'' g = Inr [(g ! 0)\<lparr>precio_compra := mean cs, precio_venta := mean vs\<rparr>]"
    unfolding resolve_group_disagree(3) [OF ne dis] cs vs by simp
  have upd: "(g ! 0)\<lparr>precio_compra := x, precio_venta := y\<rparr> =
      \<lparr>producto = producto (g ! 0), precio_compra = x, precio_venta = y\<rparr>" for x y
    by (cases "g ! 0") simp
  have "map Num (dropna cs) = filter (\<lambda>c. c \<noteq> Null) (map precio_compra g) \<and>
        map Num (dropna vs) = filter (\<lambda>c. c \<noteq> Null) (map precio_venta g) \<and>
        resolve_group ''avg'' g =
             Inr [\<lparr>producto = producto (g ! 0),
                   precio_compra = (if dropna cs = [] then Null
                      else Num (sum_list (dropna cs) / of_nat (length (dropna cs)))),
                   precio_venta = (if dropna vs = [] then Null
                      else Num (sum_list (dropna vs) / of_nat (length (dropna vs))))\<rparr>]"
    using astype_float_dropna [OF cs] astype_float_dropna [OF vs] r
    by (simp add: upd mean_def Let_def)
  then show ?thesis by blast
qed

lemma max_venta_text:
  assumes ne: "g \<noteq> []"
    and dis: "\<not> (\<forall>x\<in>set g. \<forall>y\<in>set g. precio_compra x = precio_compra y \<and> precio_venta x = precio_venta y)"
    and tx: "Text s \<in> precio_venta ` set g"
  shows "\<exists>s'. resolve_group ''max_venta'' g = Inl (FloatValueError s')"
proof -
  from tx have "Text s \<in> set (map precio_venta g)" by simp
  from astype_float_Text [OF this] obtain s' where "astype_float (map precio_venta g) = Inl (FloatValueError s')"
    by blast
  then have "resolve_group ''max_venta'' g = Inl (FloatValueError s')"
    unfolding resolve_group_disagree(1) [OF ne dis] by simp
  then show ?thesis ..
qed

lemma min_costo_text:
  assumes ne: "g \<noteq> []"
    and dis: "\<not> (\<forall>x\<in>set g. \<forall>y\<in>set g. precio_compra x = precio_compra y \<and> precio_venta x = precio_venta y)"
    and tx: "Text s \<in> precio_compra ` set g"
  shows "\<exists>s'. resolve_group ''min_costo'' g = Inl (FloatValueError s')"
proof -
  from tx have "Text s \<in> set (map precio_compra g)" by simp
  from astype_float_Text [OF this] obtain s' where "astype_float (map precio_compra g) = Inl (FloatValueError s')"
    by blast
  then have "resolve_group ''min_costo'' g = Inl (FloatValueError s')"
    unfolding resolve_group_disagree(2) [OF ne dis] by simp
  then show ?thesis ..
qed

lemma avg_text:
  assumes ne: "g \<noteq> []"
    and dis: "\<not> (\<forall>x\<in>set g. \<forall>y\<in>set g. precio_compra x = precio_compra y \<and> precio_venta x = precio_venta y)"
    and tx: "Text s \<in> precio_compra ` set g \<union> precio_venta ` set g"
  shows "\<exists>s'. resolve_group ''avg'' g = Inl (FloatValueError s')"
proof (cases "\<exists>t. Text t \<in> set (map precio_compra g)")
  case True
  then obtain t where "Text t \<in> set (map precio_compra g)" ..
  from astype_float_Text [OF this] obtain s' where "astype_float (map precio_compra g) = Inl (FloatValueError s')"
    by blast
  then have "resolve_group ''avg'' g = Inl (FloatValueError s')"
    unfolding resolve_group_disagree(3) [OF ne dis] by simp
  then show ?thesis ..
next
  case False
  then have "\<forall>t. Text t \<notin> set (map precio_compra g)" by blast
  from astype_float_ok [OF this] obtain cs where cs: "astype_float (map precio_compra g) = Inr cs"
    by blast
  from False tx have "Text s \<in> set (map precio_venta g)" by auto
  from astype_float_Text [OF this] obtain s' where "astype_float (map precio_venta g) = Inl (FloatValueError s')"
    by blast
  with cs have "resolve_group ''avg'' g = Inl (FloatValueError s')"
    unfolding resolve_group_disagree(3) [OF ne dis] by simp
  then show ?thesis ..
qed

lemma max_venta_all_null:
  assumes ne: "g \<noteq> []"
    and dis: "\<not> (\<forall>x\<in>set g. \<forall>y\<in>set g. precio_compra x = precio_compra y \<and> precio_venta x = precio_venta y)"
    and allnull: "\<forall>x\<in>set g. precio_venta x = Null"
  shows "resolve_group ''max_venta'' g = Inl AllNAError"
proof -
  from allnull have "\<forall>s. Text s \<notin> set (map precio_venta g)" by auto
  from astype_float_ok [OF this] obtain vs where vs: "astype_float (map precio_venta g) = Inr vs"
    by blast
  have "\<forall>v. Some v \<notin> set vs"
    using astype_float_set [OF vs] allnull by auto
  from idxmax_all_null [OF this] show ?thesis
    unfolding resolve_group_disagree(1) [OF ne dis] vs by simp
qed

lemma min_costo_all_null:
  assumes ne: "g \<noteq> []"
    and dis: "\<not> (\<forall>x\<in>set g. \<forall>y\<in>set g. precio_compra x = precio_compra y \<and> precio_venta x = precio_venta y)"
    and allnull: "\<forall>x\<in>set g. precio_compra x = Null"
  shows "resolve_group ''min_costo'' g = Inl AllNAError"
proof -
  from allnull have "\<forall>s. Text s \<notin> set (map precio_compra g)" by auto
  from astype_float_ok [OF this] obtain vs where vs: "astype_float (map precio_compra g) = Inr vs"
    by blast
  have "\<forall>v. Some v \<notin> set vs"
    using astype_float_set [OF vs] allnull by auto
  from idxmin_all_null [OF this] show ?thesis
    unfolding resolve_group_disagree(2) [OF ne dis] vs by simp
qed


section \<open>The merge and the column producto\<close>

lemma find_drop_duplicates_seen:
  "k \<notin> set seen \<Longrightarrow>
     find (\<lambda>c. key_of c = k) (drop_duplicates_seen seen xs) = find (\<lambda>c. key_of c = k) xs"
  by (induction xs arbitrary: seen) auto

lemma keys_drop_duplicates_seen:
  "distinct (map key_of (drop_duplicates_seen seen xs)) \<and>
   key_of ` set (drop_duplicates_seen seen xs) \<inter> set seen = {}"
proof (induction xs arbitrary: seen)
  case Nil
  then show ?case by simp
next
  case (Cons x xs)
  show ?case
  proof (cases "key_of x \<in> set seen")
    case True
    with Cons [of seen] show ?thesis by simp
  next
    case False
    with Cons [of "key_of x # seen"] show ?thesis by auto
  qed
qed

lemma find_drop_duplicates:
  "find (\<lambda>c. key_of c = k) (drop_duplicates xs) = find (\<lambda>c. key_of c = k) xs"
  by (simp add: drop_duplicates_def find_drop_duplicates_seen)

lemma distinct_drop_duplicates: "distinct (map key_of (drop_duplicates xs))"
  using keys_drop_duplicates_seen [of "[]" xs] by (simp add: drop_duplicates_def)

lemma merge_right_unique:
  "merge df_ped (drop_duplicates clean) sfx =
     Inr \<lparr>suffixes = sfx,
          mrows = map (\<lambda>p. (p, find (\<lambda>c. key_of c = norm_text (producto_ped p)) clean)) df_ped\<rparr>"
  by (simp add: merge_def distinct_drop_duplicates find_drop_duplicates)

lemma getitem_producto_default_suffixes:
  "suffixes df = (''_x'', ''_y'') \<Longrightarrow> getitem_producto df = Inl (KeyError ''producto'')"
  by (simp add: getitem_producto_def)

lemma getitem_producto_left:
  "suffixes df = ('''', ''_cat'') \<Longrightarrow>
     getitem_producto df = Inr (map (\<lambda>m. producto_ped (fst m)) (mrows df))"
  by (simp add: getitem_producto_def)

lemma calcular_KeyError:
  "deduplicate_catalog df_cat policy = Inr clean \<Longrightarrow>
     calcular df_cat df_ped policy = Inl (KeyError ''producto'')"
  by (simp add: calcular_def Let_def merge_right_unique missing_rows_def
      getitem_producto_default_suffixes)

lemma calcular_never_returns: "calcular df_cat df_ped policy \<noteq> Inr out"
proof (cases "deduplicate_catalog df_cat policy")
  case (Inl e)
  then show ?thesis by (simp add: calcular_def)
next
  case (Inr clean)
  from calcular_KeyError [OF this] show ?thesis by simp
qed

section \<open>The lines of an order\<close>

lemma fillna_astype_float_all2:
  "fillna_astype_float d cs = Inr vs \<Longrightarrow> list_all2 (\<lambda>c v. fillna_float d c = Inr v) cs vs"
  by (induction cs arbitrary: vs) (auto split: sum.splits)

lemma operands_all2:
  "operands cs = Inr vs \<Longrightarrow> list_all2 (\<lambda>c v. operand c = Inr v) cs vs"
  by (induction cs arbitrary: vs) (auto split: sum.splits)

lemma fillna_astype_float_ok:
  "\<forall>s. Text s \<notin> set cs \<Longrightarrow> \<exists>vs. fillna_astype_float d cs = Inr vs"
proof (induction cs)
  case Nil
  then show ?case by simp
next
  case (Cons c cs)
  then obtain vs where "fillna_astype_float d cs = Inr vs" by auto
  with Cons.prems show ?case by (cases c) auto
qed

lemma operands_ok:
  "\<forall>s. Text s \<notin> set cs \<Longrightarrow> \<exists>vs. operands cs = Inr vs"
proof (induction cs)
  case Nil
  then show ?case by simp
next
  case (Cons c cs)
  then obtain vs where "operands cs = Inr vs" by auto
  with Cons.prems show ?case by (cases c) auto
qed

lemma operand_Null: "operand c = Inr v \<Longrightarrow> (v = None) = (c = Null)"
  by (cases c) auto

lemma lineas_nth:
  "length cs = length ps \<Longrightarrow> length ds = length ps \<Longrightarrow> length vs = length ps \<Longrightarrow>
   length ks = length ps \<Longrightarrow>
     length (lineas ps cs ds vs ks) = length ps \<and>
     (\<forall>i<length ps. lineas ps cs ds vs ks ! i = linea (ps ! i) (cs ! i) (ds ! i) (vs ! i) (ks ! i))"
proof (induction ps arbitrary: cs ds vs ks)
  case Nil
  then show ?case by simp
next
  case (Cons p ps)
  from Cons.prems obtain c cs' where cs: "cs = c # cs'" by (cases cs) auto
  from Cons.prems obtain d ds' where ds: "ds = d # ds'" by (cases ds) auto
  from Cons.prems obtain v vs' where vs: "vs = v # vs'" by (cases vs) auto
  from Cons.prems obtain k ks' where ks: "ks = k # ks'" by (cases ks) auto
  from Cons.prems have "length cs' = length ps" "length ds' = length ps"
    "length vs' = length ps" "length ks' = length ps"
    unfolding cs ds vs ks by simp_all
  from Cons.IH [OF this]
  have ih: "length (lineas ps cs' ds' vs' ks') = length ps"
    "\<forall>i<length ps. lineas ps cs' ds' vs' ks' ! i = linea (ps ! i) (cs' ! i) (ds' ! i) (vs' ! i) (ks' ! i)"
    by simp_all
  show ?case
    unfolding cs ds vs ks using ih by (auto simp: nth_Cons split: nat.splits)
qed

lemma set_unique: "set (unique xs) = set xs"
  by (simp add: unique_def)

lemma distinct_unique: "distinct (unique xs)"
  by (simp add: unique_def)

lemma find_distinct_key:
  "distinct (map f xs) \<Longrightarrow> (find (\<lambda>c. f c = k) xs = Some x) = (x \<in> set xs \<and> f x = k)"
proof (induction xs)
  case Nil
  then show ?case by simp
next
  case (Cons y ys)
  then show ?case by (auto simp: image_iff)
qed

lemma find_None_key: "(find (\<lambda>c. f c = k) xs = None) = (k \<notin> f ` set xs)"
  by (induction xs) auto

lemma linea_unmatched:
  "linea n q d None None =
     \<lparr>producto_d = n, cantidad_d = q, descuento_d = d, precio_venta_d = None,
      precio_venta_aplicado = None, precio_compra_d = None, ingreso_linea = None,
      costo_linea = None, utilidad_linea = None, margen_linea = None\<rparr>"
  by (simp add: linea_def)

lemma linea_matched:
  "linea n q d (Some pv) (Some pc) =
     \<lparr>producto_d = n, cantidad_d = q, descuento_d = d, precio_venta_d = Some pv,
      precio_venta_aplicado = Some (pv * (1 - d)), precio_compra_d = Some pc,
      ingreso_linea = Some (q * (pv * (1 - d))), costo_linea = Some (q * pc),
      utilidad_linea = Some (q * (pv * (1 - d)) - q * pc),
      margen_linea = (if q * (pv * (1 - d)) = 0 then None
                      else Some ((q * (pv * (1 - d)) - q * pc) / (q * (pv * (1 - d)))))\<rparr>"
  by (simp add: linea_def)

lemma main_Inr:
  assumes "main df_cat df_ped policy = Inr out"
  obtains clean descs cants pvs pcs where
    "deduplicate_catalog df_cat policy = Inr clean"
    "fillna_astype_float 0 (map descuento df_ped) = Inr descs"
    "fillna_astype_float 0 (map cantidad df_ped) = Inr cants"
    "operands (map (\<lambda>p. col_precio_venta (p, find (\<lambda>c. key_of c = norm_text (producto_ped p)) clean)) df_ped) = Inr pvs"
    "operands (map (\<lambda>p. col_precio_compra (p, find (\<lambda>c. key_of c = norm_text (producto_ped p)) clean)) df_ped) = Inr pcs"
    "missing out = unique (map producto_ped (filter (\<lambda>p.
        isna (col_precio_venta (p, find (\<lambda>c. key_of c = norm_text (producto_ped p)) clean)) \<or>
        isna (col_precio_compra (p, find (\<lambda>c. key_of c = norm_text (producto_ped p)) clean))) df_ped))"
    "detalle out = lineas (map producto_ped df_ped) cants descs pvs pcs"
    "resumen out = resumen_of (detalle out)"
proof -
  from assms obtain clean where clean: "deduplicate_catalog df_cat policy = Inr clean"
    by (auto simp: main_def deduplicate_catalog_dl_eq split: sum.splits)
  define J where "J = map (\<lambda>p. (p, find (\<lambda>c. key_of c = norm_text (producto_ped p)) clean)) df_ped"
  define df where "df = \<lparr>suffixes = ('''', ''_cat''), mrows = J\<rparr>"
  have sfx: "suffixes df = ('''', ''_cat'')" "suffixes (missing_rows df) = ('''', ''_cat'')"
    by (simp_all add: df_def missing_rows_def)
  from assms clean obtain lines where lines: "metricas df = Inr lines"
    and out: "out = \<lparr>missing = unique (map (\<lambda>m. producto_ped (fst m)) (mrows (missing_rows df))),
                     detalle = lines, resumen = resumen_of lines\<rparr>"
    unfolding main_def deduplicate_catalog_dl_eq
    by (auto simp: merge_right_unique getitem_producto_left sfx df_def [symmetric] J_def [symmetric]
        Let_def split: sum.splits)
  from lines obtain descs cants pvs pcs where
    d: "fillna_astype_float 0 (map (\<lambda>m. descuento (fst m)) J) = Inr descs"
    and c: "fillna_astype_float 0 (map (\<lambda>m. cantidad (fst m)) J) = Inr cants"
    and v: "operands (map col_precio_venta J) = Inr pvs"
    and k: "operands (map col_precio_compra J) = Inr pcs"
    and l: "lines = lineas (map (\<lambda>m. producto_ped (fst m)) J) cants descs pvs pcs"
    unfolding metricas_def getitem_producto_left [OF sfx(1)]
    by (auto simp: df_def split: sum.splits)
  have m: "map (\<lambda>m. producto_ped (fst m)) (mrows (missing_rows df)) =
      map producto_ped (filter (\<lambda>p.
        isna (col_precio_venta (p, find (\<lambda>c. key_of c = norm_text (producto_ped p)) clean)) \<or>
        isna (col_precio_compra (p, find (\<lambda>c. key_of c = norm_text (producto_ped p)) clean))) df_ped)"
    by (simp add: missing_rows_def df_def J_def filter_map comp_def)
  show ?thesis
  proof (rule that [OF clean])
    show "fillna_astype_float 0 (map descuento df_ped) = Inr descs"
      using d by (simp add: J_def comp_def)
    show "fillna_astype_float 0 (map cantidad df_ped) = Inr cants"
      using c by (simp add: J_def comp_def)
    show "operands (map (\<lambda>p. col_precio_venta (p, find (\<lambda>c. key_of c = norm_text (producto_ped p)) clean)) df_ped) = Inr pvs"
      using v by (simp add: J_def comp_def)
    show "operands (map (\<lambda>p. col_precio_compra (p, find (\<lambda>c. key_of c = norm_text (producto_ped p)) clean)) df_ped) = Inr pcs"
      using k by (simp add: J_def comp_def)
    show "missing out = unique (map producto_ped (filter (\<lambda>p.
        isna (col_precio_venta (p, find (\<lambda>c. key_of c = norm_text (producto_ped p)) clean)) \<or>
        isna (col_precio_compra (p, find (\<lambda>c. key_of c = norm_text (producto_ped p)) clean))) df_ped))"
      using m by (simp add: out)
    show "detalle out = lineas (map producto_ped df_ped) cants descs pvs pcs"
      using l by (simp add: out J_def comp_def)
    show "resumen out = resumen_of (detalle out)"
      by (simp add: out)
  qed
qed

lemma main_total:
  assumes "deduplicate_catalog df_cat policy = Inr clean"
    and "fillna_astype_float 0 (map descuento df_ped) = Inr descs"
    and "fillna_astype_float 0 (map cantidad df_ped) = Inr cants"
    and "operands (map (\<lambda>p. col_precio_venta (p, find (\<lambda>c. key_of c = norm_text (producto_ped p)) clean)) df_ped) = Inr pvs"
    and "operands (map (\<lambda>p. col_precio_compra (p, find (\<lambda>c. key_of c = norm_text (producto_ped p)) clean)) df_ped) = Inr pcs"
  shows "\<exists>out. main df_cat df_ped policy = Inr out"
  using assms
  by (simp add: main_def deduplicate_catalog_dl_eq merge_right_unique getitem_producto_left
      missing_rows_def metricas_def comp_def Let_def)

lemma col_text_free:
  assumes "\<forall>c\<in>set clean. \<forall>s. precio_compra c \<noteq> Text s \<and> precio_venta c \<noteq> Text s"
  shows "col_precio_venta (p, find P clean) \<noteq> Text s" "col_precio_compra (p, find P clean) \<noteq> Text s"
proof -
  have "c \<in> set clean" if "find P clean = Some c" for c
    using that by (auto simp: find_Some_iff)
  with assms show "col_precio_venta (p, find P clean) \<noteq> Text s"
    "col_precio_compra (p, find P clean) \<noteq> Text s"
    by (auto simp: col_precio_venta_def col_precio_compra_def split: option.splits)
qed

lemma missing_mask:
  assumes "distinct (map key_of clean)"
  shows "(isna (col_precio_venta (p, find (\<lambda>c. key_of c = k) clean)) \<or>
          isna (col_precio_compra (p, find (\<lambda>c. key_of c = k) clean))) =
         (\<not> (\<exists>c\<in>set clean. key_of c = k \<and> precio_venta c \<noteq> Null \<and> precio_compra c \<noteq> Null))"
proof (cases "find (\<lambda>c. key_of c = k) clean")
  case None
  then have "k \<notin> key_of ` set clean" by (simp add: find_None_key)
  with None show ?thesis
    by (auto simp: isna_def col_precio_venta_def col_precio_compra_def)
next
  case (Some c)
  have fd: "(find (\<lambda>c. key_of c = k) clean = Some x) = (x \<in> set clean \<and> key_of x = k)" for x
    by (rule find_distinct_key [OF assms])
  have "\<forall>x. (x \<in> set clean \<and> key_of x = k) \<longleftrightarrow> (x = c)"
  proof
    fix x
    show "(x \<in> set clean \<and> key_of x = k) \<longleftrightarrow> (x = c)"
      unfolding fd [symmetric] Some by auto
  qed
  then have "(\<exists>x\<in>set clean. key_of x = k \<and> precio_venta x \<noteq> Null \<and> precio_compra x \<noteq> Null) =
      (precio_venta c \<noteq> Null \<and> precio_compra c \<noteq> Null)"
    by auto
  with Some show ?thesis
    by (auto simp: isna_def col_precio_venta_def col_precio_compra_def)
qed

lemma no_text_map:
  assumes "\<And>p s. p \<in> set xs \<Longrightarrow> f p \<noteq> Text s"
  shows "\<forall>s. Text s \<notin> set (map f xs)"
proof (intro allI notI)
  fix s
  assume "Text s \<in> set (map f xs)"
  then obtain p where "p \<in> set xs" "Text s = f p" by auto
  with assms [of p s] show False by simp
qed

lemma main_returns:
  assumes clean: "deduplicate_catalog df_cat policy = Inr clean"
    and hp: "\<forall>p\<in>set df_ped. \<forall>s. cantidad p \<noteq> Text s \<and> descuento p \<noteq> Text s"
    and hc: "\<forall>c\<in>set clean. \<forall>s. precio_compra c \<noteq> Text s \<and> precio_venta c \<noteq> Text s"
  shows "\<exists>out. main df_cat df_ped policy = Inr out"
proof -
  have "\<forall>s. Text s \<notin> set (map descuento df_ped)"
    using hp by (intro no_text_map) blast
  from fillna_astype_float_ok [OF this] obtain descs
    where d: "fillna_astype_float 0 (map descuento df_ped) = Inr descs" by blast
  have "\<forall>s. Text s \<notin> set (map cantidad df_ped)"
    using hp by (intro no_text_map) blast
  from fillna_astype_float_ok [OF this] obtain cants
    where c: "fillna_astype_float 0 (map cantidad df_ped) = Inr cants" by blast
  have "\<forall>s. Text s \<notin> set (map (\<lambda>p. col_precio_venta (p, find (\<lambda>c. key_of c = norm_text (producto_ped p)) clean)) df_ped)"
    by (intro no_text_map) (rule col_text_free(1) [OF hc])
  from operands_ok [OF this] obtain pvs
    where v: "operands (map (\<lambda>p. col_precio_venta (p, find (\<lambda>c. key_of c = norm_text (producto_ped p)) clean)) df_ped) = Inr pvs"
    by blast
  have "\<forall>s. Text s \<notin> set (map (\<lambda>p. col_precio_compra (p, find (\<lambda>c. key_of c = norm_text (producto_ped p)) clean)) df_ped)"
    by (intro no_text_map) (rule col_text_free(2) [OF hc])
  from operands_ok [OF this] obtain pcs
    where k: "operands (map (\<lambda>p. col_precio_compra (p, find (\<lambda>c. key_of c = norm_text (producto_ped p)) clean)) df_ped) = Inr pcs"
    by blast
  from main_total [OF clean d c v k] show ?thesis .
qed

lemma main_missing:
  assumes m: "main df_cat df_ped policy = Inr out"
    and clean: "deduplicate_catalog df_cat policy = Inr clean"
  shows "set (missing out) =
         producto_ped ` {p \<in> set df_ped.
           \<not> (\<exists>c\<in>set clean. key_of c = norm_text (producto_ped p) \<and>
                  precio_venta c \<noteq> Null \<and> precio_compra c \<noteq> Null)}"
    and "distinct (missing out)"
proof -
  have dk: "distinct (map key_of clean)" using clean by (rule dedup_distinct_keys)
  from m obtain clean' descs cants pvs pcs where
      c': "deduplicate_catalog df_cat policy = Inr clean'"
      and d: "fillna_astype_float 0 (map descuento df_ped) = Inr descs"
      and c: "fillna_astype_float 0 (map cantidad df_ped) = Inr cants"
      and v': "operands (map (\<lambda>p. col_precio_venta (p, find (\<lambda>c. key_of c = norm_text (producto_ped p)) clean')) df_ped) = Inr pvs"
      and k': "operands (map (\<lambda>p. col_precio_compra (p, find (\<lambda>c. key_of c = norm_text (producto_ped p)) clean')) df_ped) = Inr pcs"
      and mi: "missing out = unique (map producto_ped (filter (\<lambda>p.
        isna (col_precio_venta (p, find (\<lambda>c. key_of c = norm_text (producto_ped p)) clean')) \<or>
        isna (col_precio_compra (p, find (\<lambda>c. key_of c = norm_text (producto_ped p)) clean'))) df_ped))"
      and de: "detalle out = lineas (map producto_ped df_ped) cants descs pvs pcs"
      and re: "resumen out = resumen_of (detalle out)"
    by (rule main_Inr)
  from c' clean have cc: "clean' = clean" by simp
  have mi': "missing out = unique (map producto_ped (filter (\<lambda>p.
        \<not> (\<exists>c\<in>set clean. key_of c = norm_text (producto_ped p) \<and>
                  precio_venta c \<noteq> Null \<and> precio_compra c \<noteq> Null)) df_ped))"
    using mi unfolding cc missing_mask [OF dk] .
  show "set (missing out) =
         producto_ped ` {p \<in> set df_ped.
           \<not> (\<exists>c\<in>set clean. key_of c = norm_text (producto_ped p) \<and>
                  precio_venta c \<noteq> Null \<and> precio_compra c \<noteq> Null)}"
    unfolding mi' set_unique set_map set_filter ..
  show "distinct (missing out)" unfolding mi' by (rule distinct_unique)
qed

lemma main_unmatched_line:
  assumes m: "main df_cat df_ped policy = Inr out"
    and clean: "deduplicate_catalog df_cat policy = Inr clean"
  shows "length (detalle out) = length df_ped"
    and "i < length df_ped \<Longrightarrow> norm_text (producto_ped (df_ped ! i)) \<notin> key_of ` set clean \<Longrightarrow>
       \<exists>q d. detalle out ! i = linea (producto_ped (df_ped ! i)) q d None None"
proof -
  from m obtain clean' descs cants pvs pcs where
      c': "deduplicate_catalog df_cat policy = Inr clean'"
      and d: "fillna_astype_float 0 (map descuento df_ped) = Inr descs"
      and c: "fillna_astype_float 0 (map cantidad df_ped) = Inr cants"
      and v': "operands (map (\<lambda>p. col_precio_venta (p, find (\<lambda>c. key_of c = norm_text (producto_ped p)) clean')) df_ped) = Inr pvs"
      and k': "operands (map (\<lambda>p. col_precio_compra (p, find (\<lambda>c. key_of c = norm_text (producto_ped p)) clean')) df_ped) = Inr pcs"
      and mi: "missing out = unique (map producto_ped (filter (\<lambda>p.
        isna (col_precio_venta (p, find (\<lambda>c. key_of c = norm_text (producto_ped p)) clean')) \<or>
        isna (col_precio_compra (p, find (\<lambda>c. key_of c = norm_text (producto_ped p)) clean'))) df_ped))"
      and de: "detalle out = lineas (map producto_ped df_ped) cants descs pvs pcs"
      and re: "resumen out = resumen_of (detalle out)"
    by (rule main_Inr)
  from c' clean have cc: "clean' = clean" by simp
  from v' have v: "operands (map (\<lambda>p. col_precio_venta (p, find (\<lambda>c. key_of c = norm_text (producto_ped p)) clean)) df_ped) = Inr pvs"
    unfolding cc .
  from k' have k: "operands (map (\<lambda>p. col_precio_compra (p, find (\<lambda>c. key_of c = norm_text (producto_ped p)) clean)) df_ped) = Inr pcs"
    unfolding cc .
  have ld: "length descs = length (map producto_ped df_ped)"
    using list_all2_lengthD [OF fillna_astype_float_all2 [OF d]] by simp
  have lc: "length cants = length (map producto_ped df_ped)"
    using list_all2_lengthD [OF fillna_astype_float_all2 [OF c]] by simp
  have lv: "length pvs = length (map producto_ped df_ped)"
    using list_all2_lengthD [OF operands_all2 [OF v]] by simp
  have lk: "length pcs = length (map producto_ped df_ped)"
    using list_all2_lengthD [OF operands_all2 [OF k]] by simp
  note ln = lineas_nth [OF lc ld lv lk]
  from ln have len': "length (lineas (map producto_ped df_ped) cants descs pvs pcs) =
      length (map producto_ped df_ped)"
    by (rule conjunct1)
  from ln have nth': "\<forall>i<length (map producto_ped df_ped).
      lineas (map producto_ped df_ped) cants descs pvs pcs ! i =
      linea (map producto_ped df_ped ! i) (cants ! i) (descs ! i) (pvs ! i) (pcs ! i)"
    by (rule conjunct2)
  show len: "length (detalle out) = length df_ped"
    unfolding de len' by (rule length_map)
  assume i: "i < length df_ped" and nk: "norm_text (producto_ped (df_ped ! i)) \<notin> key_of ` set clean"
  from nk have fn: "find (\<lambda>c. key_of c = norm_text (producto_ped (df_ped ! i))) clean = None"
    unfolding find_None_key .
  have iv: "i < length (map (\<lambda>p. col_precio_venta (p, find (\<lambda>c. key_of c = norm_text (producto_ped p)) clean)) df_ped)"
    using i by simp
  have ik: "i < length (map (\<lambda>p. col_precio_compra (p, find (\<lambda>c. key_of c = norm_text (producto_ped p)) clean)) df_ped)"
    using i by simp
  have ip: "i < length (map producto_ped df_ped)" using i by simp
  from list_all2_nthD [OF operands_all2 [OF v] iv]
  have "operand (col_precio_venta (df_ped ! i, None)) = Inr (pvs ! i)"
    unfolding nth_map [OF i] fn .
  then have pv: "pvs ! i = None"
    unfolding col_precio_venta_def by simp
  from list_all2_nthD [OF operands_all2 [OF k] ik]
  have "operand (col_precio_compra (df_ped ! i, None)) = Inr (pcs ! i)"
    unfolding nth_map [OF i] fn .
  then have pc: "pcs ! i = None"
    unfolding col_precio_compra_def by simp
  from nth' [rule_format, OF ip]
  have "detalle out ! i =
      linea (producto_ped (df_ped ! i)) (cants ! i) (descs ! i) None None"
    unfolding de nth_map [OF i] pv pc .
  then show "\<exists>q d. detalle out ! i = linea (producto_ped (df_ped ! i)) q d None None"
    by (intro exI)
qed

lemma linea_zero_revenue:
  "ingreso_linea (linea n q d pv pc) = Some 0 \<Longrightarrow> margen_linea (linea n q d pv pc) = None"
  by (cases pv; cases pc) (auto simp: linea_def Let_def)

lemma resumen_weighted_margin:
  "margen_ponderado (resumen_of ls) =
     (if ingreso_total (resumen_of ls) = 0 then 0
      else utilidad_total_balance_neto (resumen_of ls) / ingreso_total (resumen_of ls))"
  by (simp add: resumen_of_def Let_def)

lemma sum_skipna_skips:
  "sum_skipna (None # xs) = sum_skipna xs" "sum_skipna (Some 0 # xs) = sum_skipna xs"
  by (simp_all add: sum_skipna_def)

lemma main_line:
  assumes m: "main df_cat df_ped policy = Inr out"
    and clean: "deduplicate_catalog df_cat policy = Inr clean"
    and i: "i < length df_ped"
  shows "\<exists>q d pv pc.
      fillna_float 0 (cantidad (df_ped ! i)) = Inr q \<and>
      fillna_float 0 (descuento (df_ped ! i)) = Inr d \<and>
      operand (col_precio_venta (df_ped ! i,
         find (\<lambda>c. key_of c = norm_text (producto_ped (df_ped ! i))) clean)) = Inr pv \<and>
      operand (col_precio_compra (df_ped ! i,
         find (\<lambda>c. key_of c = norm_text (producto_ped (df_ped ! i))) clean)) = Inr pc \<and>
      detalle out ! i = linea (producto_ped (df_ped ! i)) q d pv pc"
proof -
  from m obtain clean' descs cants pvs pcs where
      c': "deduplicate_catalog df_cat policy = Inr clean'"
      and d: "fillna_astype_float 0 (map descuento df_ped) = Inr descs"
      and c: "fillna_astype_float 0 (map cantidad df_ped) = Inr cants"
      and v': "operands (map (\<lambda>p. col_precio_venta (p, find (\<lambda>c. key_of c = norm_text (producto_ped p)) clean')) df_ped) = Inr pvs"
      and k': "operands (map (\<lambda>p. col_precio_compra (p, find (\<lambda>c. key_of c = norm_text (producto_ped p)) clean')) df_ped) = Inr pcs"
      and mi: "missing out = unique (map producto_ped (filter (\<lambda>p.
        isna (col_precio_venta (p, find (\<lambda>c. key_of c = norm_text (producto_ped p)) clean')) \<or>
        isna (col_precio_compra (p, find (\<lambda>c. key_of c = norm_text (producto_ped p)) clean'))) df_ped))"
      and de: "detalle out = lineas (map producto_ped df_ped) cants descs pvs pcs"
      and re: "resumen out = resumen_of (detalle out)"
    by (rule main_Inr)
  from c' clean have cc: "clean' = clean" by simp
  from v' have v: "operands (map (\<lambda>p. col_precio_venta (p, find (\<lambda>c. key_of c = norm_text (producto_ped p)) clean)) df_ped) = Inr pvs"
    unfolding cc .
  from k' have k: "operands (map (\<lambda>p. col_precio_compra (p, find (\<lambda>c. key_of c = norm_text (producto_ped p)) clean)) df_ped) = Inr pcs"
    unfolding cc .
  have ld: "length descs = length (map producto_ped df_ped)"
    using list_all2_lengthD [OF fillna_astype_float_all2 [OF d]] by simp
  have lc: "length cants = length (map producto_ped df_ped)"
    using list_all2_lengthD [OF fillna_astype_float_all2 [OF c]] by simp
  have lv: "length pvs = length (map producto_ped df_ped)"
    using list_all2_lengthD [OF operands_all2 [OF v]] by simp
  have lk: "length pcs = length (map producto_ped df_ped)"
    using list_all2_lengthD [OF operands_all2 [OF k]] by simp
  note ln = lineas_nth [OF lc ld lv lk]
  from ln have nth': "\<forall>i<length (map producto_ped df_ped).
      lineas (map producto_ped df_ped) cants descs pvs pcs ! i =
      linea (map producto_ped df_ped ! i) (cants ! i) (descs ! i) (pvs ! i) (pcs ! i)"
    by (rule conjunct2)
  have id: "i < length (map descuento df_ped)" using i by simp
  have ic: "i < length (map cantidad df_ped)" using i by simp
  have iv: "i < length (map (\<lambda>p. col_precio_venta (p, find (\<lambda>c. key_of c = norm_text (producto_ped p)) clean)) df_ped)"
    using i by simp
  have ik: "i < length (map (\<lambda>p. col_precio_compra (p, find (\<lambda>c. key_of c = norm_text (producto_ped p)) clean)) df_ped)"
    using i by simp
  have ip: "i < length (map producto_ped df_ped)" using i by simp
  from list_all2_nthD [OF fillna_astype_float_all2 [OF c] ic]
  have q: "fillna_float 0 (cantidad (df_ped ! i)) = Inr (cants ! i)"
    unfolding nth_map [OF i] .
  from list_all2_nthD [OF fillna_astype_float_all2 [OF d] id]
  have dd: "fillna_float 0 (descuento (df_ped ! i)) = Inr (descs ! i)"
    unfolding nth_map [OF i] .
  from list_all2_nthD [OF operands_all2 [OF v] iv]
  have pv: "operand (col_precio_venta (df_ped ! i,
         find (\<lambda>c. key_of c = norm_text (producto_ped (df_ped ! i))) clean)) = Inr (pvs ! i)"
    unfolding nth_map [OF i] .
  from list_all2_nthD [OF operands_all2 [OF k] ik]
  have pc: "operand (col_precio_compra (df_ped ! i,
         find (\<lambda>c. key_of c = norm_text (producto_ped (df_ped ! i))) clean)) = Inr (pcs ! i)"
    unfolding nth_map [OF i] .
  from nth' [rule_format, OF ip]
  have row: "detalle out ! i =
      linea (producto_ped (df_ped ! i)) (cants ! i) (descs ! i) (pvs ! i) (pcs ! i)"
    unfolding de nth_map [OF i] .
  from q dd pv pc row show ?thesis by (intro exI conjI)
qed

text \<open>
  What \<open>main\<close> of \<open>src/downloads/calc_pedido.py\<close> does with the order lines that have no
  row in the resolved catalog, and what its warning list is made of.
\<close>

lemma main_unmatched_lines:
  assumes clean: "deduplicate_catalog df_cat policy = Inr clean"
  shows
   "(\<forall>out. main df_cat df_ped policy = Inr out \<longrightarrow>
       length (detalle out) = length df_ped \<and>
       (\<forall>i<length df_ped. norm_text (producto_ped (df_ped ! i)) \<notin> key_of ` set clean \<longrightarrow>
           producto_d (detalle out ! i) = producto_ped (df_ped ! i) \<and>
           precio_venta_d (detalle out ! i) = None \<and>
           precio_compra_d (detalle out ! i) = None \<and>
           precio_venta_aplicado (detalle out ! i) = None \<and>
           ingreso_linea (detalle out ! i) = None \<and>
           costo_linea (detalle out ! i) = None \<and>
           utilidad_linea (detalle out ! i) = None \<and>
           margen_linea (detalle out ! i) = None \<and>
           producto_ped (df_ped ! i) \<in> set (missing out)) \<and>
       set (missing out) =
         producto_ped ` {p \<in> set df_ped.
           \<not> (\<exists>c\<in>set clean. key_of c = norm_text (producto_ped p) \<and>
                  precio_venta c \<noteq> Null \<and> precio_compra c \<noteq> Null)} \<and>
       distinct (missing out)) \<and>
    ((\<forall>p\<in>set df_ped. \<forall>s. cantidad p \<noteq> Text s \<and> descuento p \<noteq> Text s) \<and>
     (\<forall>c\<in>set clean. \<forall>s. precio_compra c \<noteq> Text s \<and> precio_venta c \<noteq> Text s) \<longrightarrow>
       (\<exists>out. main df_cat df_ped policy = Inr out))"
proof (rule conjI)
  show "\<forall>out. main df_cat df_ped policy = Inr out \<longrightarrow>
       length (detalle out) = length df_ped \<and>
       (\<forall>i<length df_ped. norm_text (producto_ped (df_ped ! i)) \<notin> key_of ` set clean \<longrightarrow>
           producto_d (detalle out ! i) = producto_ped (df_ped ! i) \<and>
           precio_venta_d (detalle out ! i) = None \<and>
           precio_compra_d (detalle out ! i) = None \<and>
           precio_venta_aplicado (detalle out ! i) = None \<and>
           ingreso_linea (detalle out ! i) = None \<and>
           costo_linea (detalle out ! i) = None \<and>
           utilidad_linea (detalle out ! i) = None \<and>
           margen_linea (detalle out ! i) = None \<and>
           producto_ped (df_ped ! i) \<in> set (missing out)) \<and>
       set (missing out) =
         producto_ped ` {p \<in> set df_ped.
           \<not> (\<exists>c\<in>set clean. key_of c = norm_text (producto_ped p) \<and>
                  precio_venta c \<noteq> Null \<and> precio_compra c \<noteq> Null)} \<and>
       distinct (missing out)"
  proof (intro allI impI)
    fix out
    assume m: "main df_cat df_ped policy = Inr out"
    note len = main_unmatched_line(1) [OF m clean]
    note ms = main_missing(1) [OF m clean]
    note md = main_missing(2) [OF m clean]
    have un: "\<forall>i<length df_ped. norm_text (producto_ped (df_ped ! i)) \<notin> key_of ` set clean \<longrightarrow>
           producto_d (detalle out ! i) = producto_ped (df_ped ! i) \<and>
           precio_venta_d (detalle out ! i) = None \<and>
           precio_compra_d (detalle out ! i) = None \<and>
           precio_venta_aplicado (detalle out ! i) = None \<and>
           ingreso_linea (detalle out ! i) = None \<and>
           costo_linea (detalle out ! i) = None \<and>
           utilidad_linea (detalle out ! i) = None \<and>
           margen_linea (detalle out ! i) = None \<and>
           producto_ped (df_ped ! i) \<in> set (missing out)"
    proof (intro allI impI)
      fix i
      assume i: "i < length df_ped"
        and nk: "norm_text (producto_ped (df_ped ! i)) \<notin> key_of ` set clean"
      from main_unmatched_line(2) [OF m clean i nk] obtain q d
        where row: "detalle out ! i = linea (producto_ped (df_ped ! i)) q d None None"
        by (elim exE)
      from nk have no: "\<not> (\<exists>c\<in>set clean. key_of c = norm_text (producto_ped (df_ped ! i)) \<and>
                  precio_venta c \<noteq> Null \<and> precio_compra c \<noteq> Null)"
        by (auto simp: image_iff)
      from i have "df_ped ! i \<in> set df_ped" by (rule nth_mem)
      with no have "df_ped ! i \<in> {p \<in> set df_ped.
           \<not> (\<exists>c\<in>set clean. key_of c = norm_text (producto_ped p) \<and>
                  precio_venta c \<noteq> Null \<and> precio_compra c \<noteq> Null)}"
        by (intro CollectI conjI)
      then have inm: "producto_ped (df_ped ! i) \<in> set (missing out)"
        unfolding ms by (rule imageI)
      show "producto_d (detalle out ! i) = producto_ped (df_ped ! i) \<and>
           precio_venta_d (detalle out ! i) = None \<and>
           precio_compra_d (detalle out ! i) = None \<and>
           precio_venta_aplicado (detalle out ! i) = None \<and>
           ingreso_linea (detalle out ! i) = None \<and>
           costo_linea (detalle out ! i) = None \<and>
           utilidad_linea (detalle out ! i) = None \<and>
           margen_linea (detalle out ! i) = None \<and>
           producto_ped (df_ped ! i) \<in> set (missing out)"
        unfolding row linea_unmatched using inm by simp
    qed
    from len un ms md
    show "length (detalle out) = length df_ped \<and>
       (\<forall>i<length df_ped. norm_text (producto_ped (df_ped ! i)) \<notin> key_of ` set clean \<longrightarrow>
           producto_d (detalle out ! i) = producto_ped (df_ped ! i) \<and>
           precio_venta_d (detalle out ! i) = None \<and>
           precio_compra_d (detalle out ! i) = None \<and>
           precio_venta_aplicado (detalle out ! i) = None \<and>
           ingreso_linea (detalle out ! i) = None \<and>
           costo_linea (detalle out ! i) = None \<and>
           utilidad_linea (detalle out ! i) = None \<and>
           margen_linea (detalle out ! i) = None \<and>
           producto_ped (df_ped ! i) \<in> set (missing out)) \<and>
       set (missing out) =
         producto_ped ` {p \<in> set df_ped.
           \<not> (\<exists>c\<in>set clean. key_of c = norm_text (producto_ped p) \<and>
                  precio_venta c \<noteq> Null \<and> precio_compra c \<noteq> Null)} \<and>
       distinct (missing out)"
      by (intro conjI)
  qed
next
  show "(\<forall>p\<in>set df_ped. \<forall>s. cantidad p \<noteq> Text s \<and> descuento p \<noteq> Text s) \<and>
     (\<forall>c\<in>set clean. \<forall>s. precio_compra c \<noteq> Text s \<and> precio_venta c \<noteq> Text s) \<longrightarrow>
       (\<exists>out. main df_cat df_ped policy = Inr out)"
  proof
    assume h: "(\<forall>p\<in>set df_ped. \<forall>s. cantidad p \<noteq> Text s \<and> descuento p \<noteq> Text s) \<and>
     (\<forall>c\<in>set clean. \<forall>s. precio_compra c \<noteq> Text s \<and> precio_venta c \<noteq> Text s)"
    from main_returns [OF clean conjunct1 [OF h] conjunct2 [OF h]]
    show "\<exists>out. main df_cat df_ped policy = Inr out" .
  qed
qed

section \<open>Equal prices come before the policy\<close>

text \<open>
  Claim C1, as amended. Let the rows of one normalized name be more than one and agree on
  both prices (missing prices equal to missing prices). Then the loop body keeps the
  first of them whatever the policy, a known name or not; whenever
  \<open>deduplicate_catalog\<close> returns, that first row is the only row of this name in the
  result; and it does return, for every policy, when no group of the catalog has a price
  disagreement. It need not return otherwise: another group can raise.
\<close>

theorem equal_prices_keep_first:
  assumes "g = filter (\<lambda>r. key_of r = k) cat" and "1 < length g"
    and "\<forall>x\<in>set g. \<forall>y\<in>set g. precio_compra x = precio_compra y \<and> precio_venta x = precio_venta y"
  shows "resolve_group policy g = Inr [g ! 0] \<and>
    (\<forall>rows. deduplicate_catalog cat policy = Inr rows \<longrightarrow>
       filter (\<lambda>r. key_of r = k) rows = [g ! 0]) \<and>
    ((\<forall>k'. 1 < length (filter (\<lambda>r. key_of r = k') cat) \<longrightarrow>
        (\<forall>x\<in>set (filter (\<lambda>r. key_of r = k') cat). \<forall>y\<in>set (filter (\<lambda>r. key_of r = k') cat).
            precio_compra x = precio_compra y \<and> precio_venta x = precio_venta y)) \<longrightarrow>
     (\<exists>rows. deduplicate_catalog cat policy = Inr rows))"
proof (intro conjI allI impI)
  from assms(2) have ne: "g \<noteq> []" by auto
  show "resolve_group policy g = Inr [g ! 0]"
    using ne assms(3) by (rule resolve_group_equal)
next
  fix rows
  assume "deduplicate_catalog cat policy = Inr rows"
  then show "filter (\<lambda>r. key_of r = k) rows = [g ! 0]"
    unfolding assms(1) using assms(2,3) unfolding assms(1) by (rule equal_group_rows)
next
  assume all: "\<forall>k'. 1 < length (filter (\<lambda>r. key_of r = k') cat) \<longrightarrow>
        (\<forall>x\<in>set (filter (\<lambda>r. key_of r = k') cat). \<forall>y\<in>set (filter (\<lambda>r. key_of r = k') cat).
            precio_compra x = precio_compra y \<and> precio_venta x = precio_venta y)"
  show "\<exists>rows. deduplicate_catalog cat policy = Inr rows"
  proof (rule all_equal_total)
    fix k'
    assume "1 < length (filter (\<lambda>r. key_of r = k') cat)"
    with all [rule_format, of k']
    show "\<forall>x\<in>set (filter (\<lambda>r. key_of r = k') cat). \<forall>y\<in>set (filter (\<lambda>r. key_of r = k') cat).
            precio_compra x = precio_compra y \<and> precio_venta x = precio_venta y"
      by blast
  qed
qed

theorem equal_prices_keep_first_witness:
  "resolve_group ''bogus''
     [\<lparr>producto = Some ''x'', precio_compra = Num 10, precio_venta = Num 20\<rparr>,
      \<lparr>producto = Some '' X'', precio_compra = Num 10, precio_venta = Num 20\<rparr>]
     = Inr [\<lparr>producto = Some ''x'', precio_compra = Num 10, precio_venta = Num 20\<rparr>] \<and>
   deduplicate_catalog
     [\<lparr>producto = Some ''x'', precio_compra = Num 10, precio_venta = Num 20\<rparr>,
      \<lparr>producto = Some '' X'', precio_compra = Num 10, precio_venta = Num 20\<rparr>] ''bogus''
     = Inr [\<lparr>producto = Some ''x'', precio_compra = Num 10, precio_venta = Num 20\<rparr>]"
proof -
  let ?g = "[\<lparr>producto = Some ''x'', precio_compra = Num 10, precio_venta = Num 20\<rparr>,
      \<lparr>producto = Some '' X'', precio_compra = Num 10, precio_venta = Num 20\<rparr>]"
  have g: "?g = filter (\<lambda>r. key_of r = ''X'') ?g" by code_simp
  have len: "1 < length ?g" by simp
  have eq: "\<forall>x\<in>set ?g. \<forall>y\<in>set ?g. precio_compra x = precio_compra y \<and> precio_venta x = precio_venta y"
    by simp
  have h: "deduplicate_catalog ?g ''bogus''
      = Inr [\<lparr>producto = Some ''x'', precio_compra = Num 10, precio_venta = Num 20\<rparr>]"
    by code_simp
  note t = equal_prices_keep_first [OF g len eq, of "''bogus''"]
  from t have one: "resolve_group ''bogus'' ?g = Inr [?g ! 0]" by (rule conjunct1)
  from one have "resolve_group ''bogus'' ?g
      = Inr [\<lparr>producto = Some ''x'', precio_compra = Num 10, precio_venta = Num 20\<rparr>]"
    by (simp only: nth_Cons_0)
  from this h show ?thesis by (rule conjI)
qed

text \<open>
  The claim as stated fails: with an unknown policy the group of \<open>x\<close> below has equal
  prices, yet nothing is returned, because the group of \<open>y\<close> raises.
\<close>

theorem equal_prices_group_lost_counterexample:
  "deduplicate_catalog
     [\<lparr>producto = Some ''x'', precio_compra = Num 10, precio_venta = Num 20\<rparr>,
      \<lparr>producto = Some ''x'', precio_compra = Num 10, precio_venta = Num 20\<rparr>,
      \<lparr>producto = Some ''y'', precio_compra = Num 1, precio_venta = Num 2\<rparr>,
      \<lparr>producto = Some ''y'', precio_compra = Num 3, precio_venta = Num 4\<rparr>] ''bogus''
   = Inl (PolicyValueError ''bogus'')"
  by code_simp

section \<open>The policies on a group that disagrees\<close>



section \<open>Missing and non-numeric prices under a policy\<close>

text \<open>
  Claim C8, as amended. Let the rows of one normalized name be more than one and disagree
  on a price. A text in the column the policy converts (the sale price for
  \<open>max_venta\<close>, the purchase price for \<open>min_costo\<close>, either for \<open>avg\<close>) raises the
  conversion error, and \<open>deduplicate_catalog\<close> returns nothing. A missing price is not an
  error: \<open>max_venta\<close> and \<open>min_costo\<close> choose among the rows that have a number, the
  first of the extreme ones, and fail only when the column holds no number at all;
  \<open>avg\<close> averages the numbers that are there, and gives a missing price when there are
  none.
\<close>

theorem null_prices_skipped:
  assumes g: "g = filter (\<lambda>r. key_of r = k) cat" and len: "1 < length g"
    and dis: "\<not> (\<forall>x\<in>set g. \<forall>y\<in>set g. precio_compra x = precio_compra y \<and> precio_venta x = precio_venta y)"
  shows
   "(\<forall>s. Text s \<in> precio_venta ` set g \<longrightarrow>
        (\<exists>s'. resolve_group ''max_venta'' g = Inl (FloatValueError s')) \<and>
        (\<forall>rows. deduplicate_catalog cat ''max_venta'' \<noteq> Inr rows)) \<and>
    (\<forall>s. Text s \<in> precio_compra ` set g \<longrightarrow>
        (\<exists>s'. resolve_group ''min_costo'' g = Inl (FloatValueError s')) \<and>
        (\<forall>rows. deduplicate_catalog cat ''min_costo'' \<noteq> Inr rows)) \<and>
    (\<forall>s. Text s \<in> precio_compra ` set g \<union> precio_venta ` set g \<longrightarrow>
        (\<exists>s'. resolve_group ''avg'' g = Inl (FloatValueError s')) \<and>
        (\<forall>rows. deduplicate_catalog cat ''avg'' \<noteq> Inr rows)) \<and>
    ((\<forall>s. Text s \<notin> precio_venta ` set g) \<and> (\<exists>v. Num v \<in> precio_venta ` set g) \<longrightarrow>
        (\<exists>i v. i < length g \<and> resolve_group ''max_venta'' g = Inr [g ! i] \<and>
           precio_venta (g ! i) = Num v \<and>
           (\<forall>w. Num w \<in> precio_venta ` set g \<longrightarrow> w \<le> v) \<and>
           (\<forall>j<i. \<forall>w. precio_venta (g ! j) = Num w \<longrightarrow> w < v))) \<and>
    ((\<forall>s. Text s \<notin> precio_compra ` set g) \<and> (\<exists>v. Num v \<in> precio_compra ` set g) \<longrightarrow>
        (\<exists>i v. i < length g \<and> resolve_group ''min_costo'' g = Inr [g ! i] \<and>
           precio_compra (g ! i) = Num v \<and>
           (\<forall>w. Num w \<in> precio_compra ` set g \<longrightarrow> v \<le> w) \<and>
           (\<forall>j<i. \<forall>w. precio_compra (g ! j) = Num w \<longrightarrow> v < w))) \<and>
    ((\<forall>x\<in>set g. precio_venta x = Null) \<longrightarrow> resolve_group ''max_venta'' g = Inl AllNAError) \<and>
    ((\<forall>x\<in>set g. precio_compra x = Null) \<longrightarrow> resolve_group ''min_costo'' g = Inl AllNAError) \<and>
    ((\<forall>s. Text s \<notin> precio_compra ` set g \<union> precio_venta ` set g) \<longrightarrow>
        (\<exists>cs vs. map Num cs = filter (\<lambda>c. c \<noteq> Null) (map precio_compra g) \<and>
           map Num vs = filter (\<lambda>c. c \<noteq> Null) (map precio_venta g) \<and>
           resolve_group ''avg'' g =
             Inr [\<lparr>producto = producto (g ! 0),
                   precio_compra = (if cs = [] then Null else Num (sum_list cs / of_nat (length cs))),
                   precio_venta = (if vs = [] then Null else Num (sum_list vs / of_nat (length vs)))\<rparr>]))"
proof -
  from len have ne: "g \<noteq> []" by auto
  from len g have lenk: "1 < length (filter (\<lambda>r. key_of r = k) cat)" by simp
  have fails: "\<forall>rows. deduplicate_catalog cat policy \<noteq> Inr rows"
    if "\<exists>s'. resolve_group policy g = Inl (FloatValueError s')" for policy
  proof
    fix rows
    from that obtain s' where "resolve_group policy g = Inl (FloatValueError s')" ..
    then have "resolve_group policy (filter (\<lambda>r. key_of r = k) cat) = Inl (FloatValueError s')"
      unfolding g .
    from dedup_fails [OF lenk this] show "deduplicate_catalog cat policy \<noteq> Inr rows" .
  qed
  have T1: "\<forall>s. Text s \<in> precio_venta ` set g \<longrightarrow>
        (\<exists>s'. resolve_group ''max_venta'' g = Inl (FloatValueError s')) \<and>
        (\<forall>rows. deduplicate_catalog cat ''max_venta'' \<noteq> Inr rows)"
  proof (intro allI impI)
    fix s assume "Text s \<in> precio_venta ` set g"
    from max_venta_text [OF ne dis this]
    have e: "\<exists>s'. resolve_group ''max_venta'' g = Inl (FloatValueError s')" .
    from e fails [OF e]
    show "(\<exists>s'. resolve_group ''max_venta'' g = Inl (FloatValueError s')) \<and>
        (\<forall>rows. deduplicate_catalog cat ''max_venta'' \<noteq> Inr rows)" by (rule conjI)
  qed
  have T2: "\<forall>s. Text s \<in> precio_compra ` set g \<longrightarrow>
        (\<exists>s'. resolve_group ''min_costo'' g = Inl (FloatValueError s')) \<and>
        (\<forall>rows. deduplicate_catalog cat ''min_costo'' \<noteq> Inr rows)"
  proof (intro allI impI)
    fix s assume "Text s \<in> precio_compra ` set g"
    from min_costo_text [OF ne dis this]
    have e: "\<exists>s'. resolve_group ''min_costo'' g = Inl (FloatValueError s')" .
    from e fails [OF e]
    show "(\<exists>s'. resolve_group ''min_costo'' g = Inl (FloatValueError s')) \<and>
        (\<forall>rows. deduplicate_catalog cat ''min_costo'' \<noteq> Inr rows)" by (rule conjI)
  qed
  have T3: "\<forall>s. Text s \<in> precio_compra ` set g \<union> precio_venta ` set g \<longrightarrow>
        (\<exists>s'. resolve_group ''avg'' g = Inl (FloatValueError s')) \<and>
        (\<forall>rows. deduplicate_catalog cat ''avg'' \<noteq> Inr rows)"
  proof (intro allI impI)
    fix s assume "Text s \<in> precio_compra ` set g \<union> precio_venta ` set g"
    from avg_text [OF ne dis this]
    have e: "\<exists>s'. resolve_group ''avg'' g = Inl (FloatValueError s')" .
    from e fails [OF e]
    show "(\<exists>s'. resolve_group ''avg'' g = Inl (FloatValueError s')) \<and>
        (\<forall>rows. deduplicate_catalog cat ''avg'' \<noteq> Inr rows)" by (rule conjI)
  qed
  have N1: "(\<forall>s. Text s \<notin> precio_venta ` set g) \<and> (\<exists>v. Num v \<in> precio_venta ` set g) \<longrightarrow>
        (\<exists>i v. i < length g \<and> resolve_group ''max_venta'' g = Inr [g ! i] \<and>
           precio_venta (g ! i) = Num v \<and>
           (\<forall>w. Num w \<in> precio_venta ` set g \<longrightarrow> w \<le> v) \<and>
           (\<forall>j<i. \<forall>w. precio_venta (g ! j) = Num w \<longrightarrow> w < v))"
  proof
    assume a: "(\<forall>s. Text s \<notin> precio_venta ` set g) \<and> (\<exists>v. Num v \<in> precio_venta ` set g)"
    then obtain v0 where "Num v0 \<in> precio_venta ` set g" by blast
    from max_venta_pick [OF ne dis conjunct1 [OF a] this]
    show "\<exists>i v. i < length g \<and> resolve_group ''max_venta'' g = Inr [g ! i] \<and>
           precio_venta (g ! i) = Num v \<and>
           (\<forall>w. Num w \<in> precio_venta ` set g \<longrightarrow> w \<le> v) \<and>
           (\<forall>j<i. \<forall>w. precio_venta (g ! j) = Num w \<longrightarrow> w < v)" .
  qed
  have N2: "(\<forall>s. Text s \<notin> precio_compra ` set g) \<and> (\<exists>v. Num v \<in> precio_compra ` set g) \<longrightarrow>
        (\<exists>i v. i < length g \<and> resolve_group ''min_costo'' g = Inr [g ! i] \<and>
           precio_compra (g ! i) = Num v \<and>
           (\<forall>w. Num w \<in> precio_compra ` set g \<longrightarrow> v \<le> w) \<and>
           (\<forall>j<i. \<forall>w. precio_compra (g ! j) = Num w \<longrightarrow> v < w))"
  proof
    assume a: "(\<forall>s. Text s \<notin> precio_compra ` set g) \<and> (\<exists>v. Num v \<in> precio_compra ` set g)"
    then obtain v0 where "Num v0 \<in> precio_compra ` set g" by blast
    from min_costo_pick [OF ne dis conjunct1 [OF a] this]
    show "\<exists>i v. i < length g \<and> resolve_group ''min_costo'' g = Inr [g ! i] \<and>
           precio_compra (g ! i) = Num v \<and>
           (\<forall>w. Num w \<in> precio_compra ` set g \<longrightarrow> v \<le> w) \<and>
           (\<forall>j<i. \<forall>w. precio_compra (g ! j) = Num w \<longrightarrow> v < w)" .
  qed
  have N3: "(\<forall>x\<in>set g. precio_venta x = Null) \<longrightarrow> resolve_group ''max_venta'' g = Inl AllNAError"
    using max_venta_all_null [OF ne dis] by (rule impI)
  have N4: "(\<forall>x\<in>set g. precio_compra x = Null) \<longrightarrow> resolve_group ''min_costo'' g = Inl AllNAError"
    using min_costo_all_null [OF ne dis] by (rule impI)
  have N5: "(\<forall>s. Text s \<notin> precio_compra ` set g \<union> precio_venta ` set g) \<longrightarrow>
        (\<exists>cs vs. map Num cs = filter (\<lambda>c. c \<noteq> Null) (map precio_compra g) \<and>
           map Num vs = filter (\<lambda>c. c \<noteq> Null) (map precio_venta g) \<and>
           resolve_group ''avg'' g =
             Inr [\<lparr>producto = producto (g ! 0),
                   precio_compra = (if cs = [] then Null else Num (sum_list cs / of_nat (length cs))),
                   precio_venta = (if vs = [] then Null else Num (sum_list vs / of_nat (length vs)))\<rparr>])"
    using avg_pick [OF ne dis] by (rule impI)
  from T1 T2 T3 N1 N2 N3 N4 N5 show ?thesis by (intro conjI)
qed

theorem null_prices_skipped_witness:
  "(\<exists>s'. resolve_group ''max_venta''
     [\<lparr>producto = Some ''X'', precio_compra = Num 5, precio_venta = Text ''n/a''\<rparr>,
      \<lparr>producto = Some ''X'', precio_compra = Num 7, precio_venta = Num 15\<rparr>]
     = Inl (FloatValueError s')) \<and>
   deduplicate_catalog
     [\<lparr>producto = Some ''X'', precio_compra = Num 5, precio_venta = Text ''n/a''\<rparr>,
      \<lparr>producto = Some ''X'', precio_compra = Num 7, precio_venta = Num 15\<rparr>] ''max_venta''
     = Inl (FloatValueError ''n/a'')"
proof -
  let ?g = "[\<lparr>producto = Some ''X'', precio_compra = Num 5, precio_venta = Text ''n/a''\<rparr>,
      \<lparr>producto = Some ''X'', precio_compra = Num 7, precio_venta = Num 15\<rparr>]"
  have g: "?g = filter (\<lambda>r. key_of r = ''X'') ?g" by code_simp
  have len: "1 < length ?g" by simp
  have dis: "\<not> (\<forall>x\<in>set ?g. \<forall>y\<in>set ?g. precio_compra x = precio_compra y \<and> precio_venta x = precio_venta y)"
    by simp
  have tx: "Text ''n/a'' \<in> precio_venta ` set ?g" by simp
  note t = null_prices_skipped [OF g len dis]
  from t have "\<forall>s. Text s \<in> precio_venta ` set ?g \<longrightarrow>
        (\<exists>s'. resolve_group ''max_venta'' ?g = Inl (FloatValueError s')) \<and>
        (\<forall>rows. deduplicate_catalog ?g ''max_venta'' \<noteq> Inr rows)"
    by (rule conjunct1)
  from this [rule_format, OF tx]
  have a: "\<exists>s'. resolve_group ''max_venta'' ?g = Inl (FloatValueError s')"
    by (rule conjunct1)
  have b: "deduplicate_catalog ?g ''max_venta'' = Inl (FloatValueError ''n/a'')"
    by code_simp
  from a b show ?thesis by (rule conjI)
qed

text \<open>
  The claim as stated fails: a missing price is skipped without an error by each of the
  three policies, and a text in the column a policy does not convert is not looked at.
\<close>

theorem null_price_not_an_error_counterexample:
  "deduplicate_catalog
     [\<lparr>producto = Some ''X'', precio_compra = Num 5, precio_venta = Null\<rparr>,
      \<lparr>producto = Some ''X'', precio_compra = Num 7, precio_venta = Num 15\<rparr>] ''max_venta''
     = Inr [\<lparr>producto = Some ''X'', precio_compra = Num 7, precio_venta = Num 15\<rparr>] \<and>
   deduplicate_catalog
     [\<lparr>producto = Some ''X'', precio_compra = Null, precio_venta = Num 10\<rparr>,
      \<lparr>producto = Some ''X'', precio_compra = Num 7, precio_venta = Num 15\<rparr>] ''min_costo''
     = Inr [\<lparr>producto = Some ''X'', precio_compra = Num 7, precio_venta = Num 15\<rparr>] \<and>
   deduplicate_catalog
     [\<lparr>producto = Some ''X'', precio_compra = Num 5, precio_venta = Null\<rparr>,
      \<lparr>producto = Some ''X'', precio_compra = Num 7, precio_venta = Num 15\<rparr>] ''avg''
     = Inr [\<lparr>producto = Some ''X'', precio_compra = Num 6, precio_venta = Num 15\<rparr>] \<and>
   deduplicate_catalog
     [\<lparr>producto = Some ''X'', precio_compra = Text ''n/a'', precio_venta = Num 10\<rparr>,
      \<lparr>producto = Some ''X'', precio_compra = Num 7, precio_venta = Num 15\<rparr>] ''max_venta''
     = Inr [\<lparr>producto = Some ''X'', precio_compra = Num 7, precio_venta = Num 15\<rparr>]"
  by code_simp

section \<open>Resolved keys\<close>

text \<open>
  Claim C3. Whenever \<open>deduplicate_catalog\<close> returns, for any catalog and any policy, the
  normalized names of the returned rows are pairwise different, and they are the
  normalized names of the catalog: every key has exactly one row.
\<close>

theorem resolved_keys_unique:
  assumes "deduplicate_catalog cat policy = Inr rows"
  shows "distinct (map key_of rows) \<and> key_of ` set rows = key_of ` set cat"
proof -
  from dedup_key_count [OF assms]
  have len: "length (filter (\<lambda>r. key_of r = k) rows) \<le> 1 \<and>
     (filter (\<lambda>r. key_of r = k) rows = [] \<longleftrightarrow> filter (\<lambda>r. key_of r = k) cat = [])" for k .
  then have "distinct (map key_of rows)"
    by (simp add: distinct_map_filter)
  moreover have "k \<in> key_of ` set rows \<longleftrightarrow> k \<in> key_of ` set cat" for k
    using len [of k] by (simp only: image_filter_conv)
  ultimately show ?thesis by blast
qed

theorem resolved_keys_unique_witness:
  "deduplicate_catalog
     [\<lparr>producto = Some ''x'', precio_compra = Num 5, precio_venta = Num 10\<rparr>,
      \<lparr>producto = Some ''y'', precio_compra = Num 1, precio_venta = Num 2\<rparr>,
      \<lparr>producto = Some '' X '', precio_compra = Num 7, precio_venta = Num 15\<rparr>] ''max_venta''
   = Inr [\<lparr>producto = Some ''y'', precio_compra = Num 1, precio_venta = Num 2\<rparr>,
          \<lparr>producto = Some '' X '', precio_compra = Num 7, precio_venta = Num 15\<rparr>]
   \<and> map key_of [\<lparr>producto = Some ''y'', precio_compra = Num 1, precio_venta = Num 2\<rparr>,
          \<lparr>producto = Some '' X '', precio_compra = Num 7, precio_venta = Num 15\<rparr>] = [''Y'', ''X'']
   \<and> distinct (map key_of [\<lparr>producto = Some ''y'', precio_compra = Num 1, precio_venta = Num 2\<rparr>,
          \<lparr>producto = Some '' X '', precio_compra = Num 7, precio_venta = Num 15\<rparr>])"
proof -
  have h: "deduplicate_catalog
     [\<lparr>producto = Some ''x'', precio_compra = Num 5, precio_venta = Num 10\<rparr>,
      \<lparr>producto = Some ''y'', precio_compra = Num 1, precio_venta = Num 2\<rparr>,
      \<lparr>producto = Some '' X '', precio_compra = Num 7, precio_venta = Num 15\<rparr>] ''max_venta''
   = Inr [\<lparr>producto = Some ''y'', precio_compra = Num 1, precio_venta = Num 2\<rparr>,
          \<lparr>producto = Some '' X '', precio_compra = Num 7, precio_venta = Num 15\<rparr>]"
    by code_simp
  have k: "map key_of [\<lparr>producto = Some ''y'', precio_compra = Num 1, precio_venta = Num 2\<rparr>,
          \<lparr>producto = Some '' X '', precio_compra = Num 7, precio_venta = Num 15\<rparr>] = [''Y'', ''X'']"
    by code_simp
  from resolved_keys_unique [OF h] h k show ?thesis by blast
qed

section \<open>Unknown policies\<close>

text \<open>
  Claim C4, as amended. With a policy outside \<open>first\<close>, \<open>max_venta\<close>, \<open>min_costo\<close> and
  \<open>avg\<close>, \<open>deduplicate_catalog\<close> raises the unknown-policy \<open>ValueError\<close> exactly when
  some normalized name has several rows that disagree on a price; otherwise it returns,
  and returns what the policy \<open>first\<close> returns.
\<close>

theorem unknown_policy_lazy:
  assumes "policy \<notin> {''first'', ''max_venta'', ''min_costo'', ''avg''}"
  shows "((\<exists>k. 1 < length (filter (\<lambda>r. key_of r = k) cat) \<and>
           \<not> (\<forall>x\<in>set (filter (\<lambda>r. key_of r = k) cat). \<forall>y\<in>set (filter (\<lambda>r. key_of r = k) cat).
                precio_compra x = precio_compra y \<and> precio_venta x = precio_venta y)) \<longrightarrow>
          deduplicate_catalog cat policy = Inl (PolicyValueError policy)) \<and>
         (\<not> (\<exists>k. 1 < length (filter (\<lambda>r. key_of r = k) cat) \<and>
           \<not> (\<forall>x\<in>set (filter (\<lambda>r. key_of r = k) cat). \<forall>y\<in>set (filter (\<lambda>r. key_of r = k) cat).
                precio_compra x = precio_compra y \<and> precio_venta x = precio_venta y)) \<longrightarrow>
          (\<exists>rows. deduplicate_catalog cat policy = Inr rows \<and>
                  deduplicate_catalog cat ''first'' = Inr rows))"
proof (intro conjI impI)
  assume "\<exists>k. 1 < length (filter (\<lambda>r. key_of r = k) cat) \<and>
           \<not> (\<forall>x\<in>set (filter (\<lambda>r. key_of r = k) cat). \<forall>y\<in>set (filter (\<lambda>r. key_of r = k) cat).
                precio_compra x = precio_compra y \<and> precio_venta x = precio_venta y)"
  then obtain k where len: "1 < length (filter (\<lambda>r. key_of r = k) cat)"
    and ne: "\<not> (\<forall>x\<in>set (filter (\<lambda>r. key_of r = k) cat). \<forall>y\<in>set (filter (\<lambda>r. key_of r = k) cat).
                precio_compra x = precio_compra y \<and> precio_venta x = precio_venta y)"
    by blast
  from len have "filter (\<lambda>r. key_of r = k) cat \<noteq> []" by auto
  from resolve_group_unknown [OF this assms ne]
  have bad: "resolve_group policy (filter (\<lambda>r. key_of r = k) cat) = Inl (PolicyValueError policy)" .
  show "deduplicate_catalog cat policy = Inl (PolicyValueError policy)"
  proof (cases "deduplicate_catalog cat policy")
    case (Inr rows)
    with dedup_fails [OF len bad, of rows] show ?thesis by simp
  next
    case (Inl e)
    from dedup_Inl [OF this] obtain k' where
      l': "1 < length (filter (\<lambda>r. key_of r = k') cat)"
      and e: "resolve_group policy (filter (\<lambda>r. key_of r = k') cat) = Inl e"
      by blast
    from l' have n': "filter (\<lambda>r. key_of r = k') cat \<noteq> []" by auto
    have "e = PolicyValueError policy"
    proof (cases "\<forall>x\<in>set (filter (\<lambda>r. key_of r = k') cat). \<forall>y\<in>set (filter (\<lambda>r. key_of r = k') cat).
                precio_compra x = precio_compra y \<and> precio_venta x = precio_venta y")
      case True
      from resolve_group_equal [OF n' True] e show ?thesis by simp
    next
      case False
      from resolve_group_unknown [OF n' assms False] e show ?thesis by simp
    qed
    with Inl show ?thesis by simp
  qed
next
  assume none: "\<not> (\<exists>k. 1 < length (filter (\<lambda>r. key_of r = k) cat) \<and>
           \<not> (\<forall>x\<in>set (filter (\<lambda>r. key_of r = k) cat). \<forall>y\<in>set (filter (\<lambda>r. key_of r = k) cat).
                precio_compra x = precio_compra y \<and> precio_venta x = precio_venta y))"
  have eq: "deduplicate_catalog cat policy = deduplicate_catalog cat ''first''"
  proof (rule dedup_cong)
    fix k
    assume len: "1 < length (filter (\<lambda>r. key_of r = k) cat)"
    then have n: "filter (\<lambda>r. key_of r = k) cat \<noteq> []" by auto
    from none len have "\<forall>x\<in>set (filter (\<lambda>r. key_of r = k) cat). \<forall>y\<in>set (filter (\<lambda>r. key_of r = k) cat).
                precio_compra x = precio_compra y \<and> precio_venta x = precio_venta y"
      by blast
    from resolve_group_equal [OF n this]
    show "resolve_group policy (filter (\<lambda>r. key_of r = k) cat) =
          resolve_group ''first'' (filter (\<lambda>r. key_of r = k) cat)"
      by simp
  qed
  have "\<exists>rows. deduplicate_catalog cat ''first'' = Inr rows"
  proof (rule dedup_total)
    fix k
    assume "1 < length (filter (\<lambda>r. key_of r = k) cat)"
    then have "filter (\<lambda>r. key_of r = k) cat \<noteq> []" by auto
    from resolve_group_first [OF this]
    show "\<exists>r. resolve_group ''first'' (filter (\<lambda>r. key_of r = k) cat) = Inr r" by blast
  qed
  with eq show "\<exists>rows. deduplicate_catalog cat policy = Inr rows \<and>
                  deduplicate_catalog cat ''first'' = Inr rows"
    by simp
qed

theorem unknown_policy_lazy_witness:
  "''bogus'' \<notin> {''first'', ''max_venta'', ''min_costo'', ''avg''} \<and>
   deduplicate_catalog
     [\<lparr>producto = Some ''x'', precio_compra = Num 1, precio_venta = Num 2\<rparr>,
      \<lparr>producto = Some ''x'', precio_compra = Num 3, precio_venta = Num 4\<rparr>] ''bogus''
   = Inl (PolicyValueError ''bogus'')"
proof -
  let ?cat = "[\<lparr>producto = Some ''x'', precio_compra = Num 1, precio_venta = Num 2\<rparr>,
      \<lparr>producto = Some ''x'', precio_compra = Num 3, precio_venta = Num 4\<rparr>]"
  have p: "''bogus'' \<notin> {''first'', ''max_venta'', ''min_costo'', ''avg''}" by simp
  have f: "filter (\<lambda>r. key_of r = ''X'') ?cat = ?cat" by code_simp
  have negfact: "1 < length (filter (\<lambda>r. key_of r = ''X'') ?cat) \<and>
      \<not> (\<forall>x\<in>set (filter (\<lambda>r. key_of r = ''X'') ?cat). \<forall>y\<in>set (filter (\<lambda>r. key_of r = ''X'') ?cat).
                precio_compra x = precio_compra y \<and> precio_venta x = precio_venta y)"
    unfolding f by code_simp
  have ex: "\<exists>k. 1 < length (filter (\<lambda>r. key_of r = k) ?cat) \<and>
      \<not> (\<forall>x\<in>set (filter (\<lambda>r. key_of r = k) ?cat). \<forall>y\<in>set (filter (\<lambda>r. key_of r = k) ?cat).
                precio_compra x = precio_compra y \<and> precio_venta x = precio_venta y)"
    by (rule exI [where x = "''X''"]) (rule negfact)
  from unknown_policy_lazy [OF p, of ?cat]
  have "(\<exists>k. 1 < length (filter (\<lambda>r. key_of r = k) ?cat) \<and>
      \<not> (\<forall>x\<in>set (filter (\<lambda>r. key_of r = k) ?cat). \<forall>y\<in>set (filter (\<lambda>r. key_of r = k) ?cat).
                precio_compra x = precio_compra y \<and> precio_venta x = precio_venta y)) \<longrightarrow>
     deduplicate_catalog ?cat ''bogus'' = Inl (PolicyValueError ''bogus'')"
    by (rule conjunct1)
  from this ex have "deduplicate_catalog ?cat ''bogus'' = Inl (PolicyValueError ''bogus'')"
    by (rule mp)
  with p show ?thesis by (rule conjI)
qed

text \<open>
  The claim as stated fails: here the policy is unknown and the catalog is resolved.
\<close>

theorem unknown_policy_returns_counterexample:
  "deduplicate_catalog
     [\<lparr>producto = Some ''x'', precio_compra = Num 10, precio_venta = Num 20\<rparr>,
      \<lparr>producto = Some ''z'', precio_compra = Num 1, precio_venta = Num 2\<rparr>,
      \<lparr>producto = Some ''x'', precio_compra = Num 10, precio_venta = Num 20\<rparr>] ''bogus''
   = Inr [\<lparr>producto = Some ''z'', precio_compra = Num 1, precio_venta = Num 2\<rparr>,
          \<lparr>producto = Some ''x'', precio_compra = Num 10, precio_venta = Num 20\<rparr>]"
  by code_simp

section \<open>The run of src/calc\_pedido.py\<close>

text \<open>
  Claim C6. The defaults and the formulas of the claim are what both files compute
  (\<open>main_line\<close>, \<open>linea_matched\<close>), and \<open>main\<close> of \<open>src/downloads/calc_pedido.py\<close> returns the values of
  the aggregate scenario. \<open>calcular\<close> of \<open>src/calc_pedido.py\<close> does not: its merge keeps the
  default suffixes, the merged frame has the columns \<open>producto_x\<close> and \<open>producto_y\<close>, and
  \<open>df["producto"]\<close> raises \<open>KeyError\<close> before any line is computed
  (\<open>calcular_never_returns\<close>).
\<close>

theorem aggregate_scenario_lost:
  "calcular [\<lparr>producto = Some ''X'', precio_compra = Num 5, precio_venta = Num 10\<rparr>]
     [\<lparr>producto_ped = Some ''X'', cantidad = Num 2, descuento = Num (1 / 10)\<rparr>] ''first''
     = Inl (KeyError ''producto'') \<and>
   main [\<lparr>producto = Some ''X'', precio_compra = Num 5, precio_venta = Num 10\<rparr>]
     [\<lparr>producto_ped = Some ''X'', cantidad = Num 2, descuento = Num (1 / 10)\<rparr>] ''first''
     = Inr \<lparr>missing = [],
            detalle = [\<lparr>producto_d = Some ''X'', cantidad_d = 2, descuento_d = 1 / 10,
                         precio_venta_d = Some 10, precio_venta_aplicado = Some 9,
                         precio_compra_d = Some 5, ingreso_linea = Some 18,
                         costo_linea = Some 10, utilidad_linea = Some 8,
                         margen_linea = Some (4 / 9)\<rparr>],
            resumen = \<lparr>ingreso_total = 18, costo_total = 10,
                        utilidad_total_balance_neto = 8, margen_ponderado = 4 / 9\<rparr>\<rparr>"
  by code_simp

text \<open>
  Claim C5. A line whose normalized name has no row in the resolved catalog should go on
  with missing prices and missing derived fields, be named in the warning list, and not
  stop the run; \<open>main\<close> of \<open>src/downloads/calc_pedido.py\<close> does so
  (\<open>main_unmatched_lines\<close>). \<open>calcular\<close> of \<open>src/calc_pedido.py\<close> stops: it raises
  \<open>KeyError\<close> on the order below, whose only line has no match, by the same defect as for
  claim C6.
\<close>

theorem unmatched_line_lost:
  "calcular [\<lparr>producto = Some ''X'', precio_compra = Num 5, precio_venta = Num 10\<rparr>]
     [\<lparr>producto_ped = Some ''y'', cantidad = Num 2, descuento = Null\<rparr>] ''first''
     = Inl (KeyError ''producto'') \<and>
   main [\<lparr>producto = Some ''X'', precio_compra = Num 5, precio_venta = Num 10\<rparr>]
     [\<lparr>producto_ped = Some ''y'', cantidad = Num 2, descuento = Null\<rparr>] ''first''
     = Inr \<lparr>missing = [Some ''y''],
            detalle = [\<lparr>producto_d = Some ''y'', cantidad_d = 2, descuento_d = 0,
                         precio_venta_d = None, precio_venta_aplicado = None,
                         precio_compra_d = None, ingreso_linea = None,
                         costo_linea = None, utilidad_linea = None,
                         margen_linea = None\<rparr>],
            resumen = \<lparr>ingreso_total = 0, costo_total = 0,
                        utilidad_total_balance_neto = 0, margen_ponderado = 0\<rparr>\<rparr>"
  by code_simp

text \<open>
  Claim C7. In \<open>main\<close> a line with revenue 0 has a missing margin and adds nothing to the
  totals, and the weighted margin is the total profit over the total revenue, or 0 when
  the total revenue is 0. \<open>calcular\<close> raises \<open>KeyError\<close> on the same input, by the same
  defect as for claim C6.
\<close>

theorem zero_revenue_lost:
  "calcular [\<lparr>producto = Some ''X'', precio_compra = Num 5, precio_venta = Num 10\<rparr>]
     [\<lparr>producto_ped = Some ''X'', cantidad = Num 0, descuento = Null\<rparr>] ''first''
     = Inl (KeyError ''producto'') \<and>
   main [\<lparr>producto = Some ''X'', precio_compra = Num 5, precio_venta = Num 10\<rparr>]
     [\<lparr>producto_ped = Some ''X'', cantidad = Num 0, descuento = Null\<rparr>] ''first''
     = Inr \<lparr>missing = [],
            detalle = [\<lparr>producto_d = Some ''X'', cantidad_d = 0, descuento_d = 0,
                         precio_venta_d = Some 10, precio_venta_aplicado = Some 10,
                         precio_compra_d = Some 5, ingreso_linea = Some 0,
                         costo_linea = Some 0, utilidad_linea = Some 0,
                         margen_linea = None\<rparr>],
            resumen = \<lparr>ingreso_total = 0, costo_total = 0,
                        utilidad_total_balance_neto = 0, margen_ponderado = 0\<rparr>\<rparr> \<and>
   main [\<lparr>producto = Some ''X'', precio_compra = Num 5, precio_venta = Num 10\<rparr>]
     [\<lparr>producto_ped = Some ''X'', cantidad = Num 0, descuento = Null\<rparr>,
      \<lparr>producto_ped = Some ''X'', cantidad = Num 2, descuento = Num (1 / 10)\<rparr>] ''first''
     = Inr \<lparr>missing = [],
            detalle = [\<lparr>producto_d = Some ''X'', cantidad_d = 0, descuento_d = 0,
                         precio_venta_d = Some 10, precio_venta_aplicado = Some 10,
                         precio_compra_d = Some 5, ingreso_linea = Some 0,
                         costo_linea = Some 0, utilidad_linea = Some 0,
                         margen_linea = None\<rparr>,
                       \<lparr>producto_d = Some ''X'', cantidad_d = 2, descuento_d = 1 / 10,
                         precio_venta_d = Some 10, precio_venta_aplicado = Some 9,
                         precio_compra_d = Some 5, ingreso_linea = Some 18,
                         costo_linea = Some 10, utilidad_linea = Some 8,
                         margen_linea = Some (4 / 9)\<rparr>],
            resumen = \<lparr>ingreso_total = 18, costo_total = 10,
                        utilidad_total_balance_neto = 8, margen_ponderado = 4 / 9\<rparr>\<rparr>"
  by code_simp

text \<open>
  Claim C10. In \<open>main\<close> the warning list is made of the lines whose joined sale or
  purchase price is missing: the product \<open>x\<close> below is in the resolved catalog with a
  missing purchase price and is listed, and the missing name of the second line is listed
  as well. \<open>calcular\<close> would drop the missing name (\<open>dropna\<close>), but it raises \<open>KeyError\<close>
  before it has a list, by the same defect as for claim C6.
\<close>

theorem unmatched_classification_lost:
  "calcular [\<lparr>producto = Some ''X'', precio_compra = Null, precio_venta = Num 10\<rparr>]
     [\<lparr>producto_ped = Some ''x'', cantidad = Num 1, descuento = Null\<rparr>,
      \<lparr>producto_ped = None, cantidad = Num 1, descuento = Null\<rparr>] ''first''
     = Inl (KeyError ''producto'') \<and>
   main [\<lparr>producto = Some ''X'', precio_compra = Null, precio_venta = Num 10\<rparr>]
     [\<lparr>producto_ped = Some ''x'', cantidad = Num 1, descuento = Null\<rparr>,
      \<lparr>producto_ped = None, cantidad = Num 1, descuento = Null\<rparr>] ''first''
     = Inr \<lparr>missing = [Some ''x'', None],
            detalle = [\<lparr>producto_d = Some ''x'', cantidad_d = 1, descuento_d = 0,
                         precio_venta_d = Some 10, precio_venta_aplicado = Some 10,
                         precio_compra_d = None, ingreso_linea = Some 10,
                         costo_linea = None, utilidad_linea = None,
                         margen_linea = None\<rparr>,
                       \<lparr>producto_d = None, cantidad_d = 1, descuento_d = 0,
                         precio_venta_d = None, precio_venta_aplicado = None,
                         precio_compra_d = None, ingreso_linea = None,
                         costo_linea = None, utilidad_linea = None,
                         margen_linea = None\<rparr>],
            resumen = \<lparr>ingreso_total = 10, costo_total = 0,
                        utilidad_total_balance_neto = 0, margen_ponderado = 0\<rparr>\<rparr>"
  by code_simp

end
